theory Spec2Isabelle
  imports Complex_Main
begin

section \<open>Mirror-symmetry detection on boundary representations\<close>

text \<open>
  A shallow embedding of \<^verbatim>\<open>symmetry_freecad.py\<close>: the pairwise face matcher
  \<^verbatim>\<open>find_symmetric_face_pairs\<close>, the coincidence test \<^verbatim>\<open>check_faces_coincident\<close>
  and the two clustering variants \<^verbatim>\<open>find_significant_mirror_plane\<close> and
  \<^verbatim>\<open>find_all_mirror_planes\<close>.

  Numbers: Python's \<^verbatim>\<open>float\<close> is idealised as \<^typ>\<open>real\<close> (exact arithmetic, no
  rounding) for the coordinates, lengths, areas and distances the kernel supplies.  The
  one product of a literal and an integer that decides a comparison with an integer,
  \<^verbatim>\<open>0.7 * len(points_to_check)\<close> at line 116, is computed as the double-precision
  product.  List positions and lengths are \<^typ>\<open>nat\<close>.  Exceptions are values of the
  type \<open>error\<close>, and a function that can raise returns \<open>error + 'a\<close>.
\<close>

subsection \<open>The vector and matrix types of the geometry library\<close>

text \<open>
  \<^verbatim>\<open>App.Vector\<close> and \<^verbatim>\<open>App.Matrix\<close> belong to FreeCAD, not to the repository.  The
  operations the program calls on them are written out here with the meaning FreeCAD
  gives them: \<^verbatim>\<open>sub\<close>, \<^verbatim>\<open>dot\<close>, \<^verbatim>\<open>Length\<close>, \<^verbatim>\<open>+\<close>, \<^verbatim>\<open>multiply\<close> (scaling),
  \<^verbatim>\<open>normalize\<close> (which raises \<^verbatim>\<open>Cannot normalize null vector\<close> when the length is
  below the machine epsilon of a double, and divides by the length otherwise), and the
  action of an affine matrix on a point (rows one to three of the 4x4 matrix).
\<close>

datatype Vector = Vector (vx: real) (vy: real) (vz: real)

datatype error = NullVectorError | ZeroDivisionError

definition sub :: "Vector \<Rightarrow> Vector \<Rightarrow> Vector" where
  "sub a b = Vector (vx a - vx b) (vy a - vy b) (vz a - vz b)"

definition add :: "Vector \<Rightarrow> Vector \<Rightarrow> Vector" where
  "add a b = Vector (vx a + vx b) (vy a + vy b) (vz a + vz b)"

definition multiply :: "Vector \<Rightarrow> real \<Rightarrow> Vector" where
  "multiply a f = Vector (vx a * f) (vy a * f) (vz a * f)"

definition dot :: "Vector \<Rightarrow> Vector \<Rightarrow> real" where
  "dot a b = vx a * vx b + vy a * vy b + vz a * vz b"

definition Length :: "Vector \<Rightarrow> real" where
  "Length a = sqrt (vx a * vx a + vy a * vy a + vz a * vz a)"

definition epsilon :: real where
  "epsilon = 1 / 2 ^ 52"

definition normalize_vector :: "Vector \<Rightarrow> error + Vector" where
  "normalize_vector a =
     (if Length a < epsilon then Inl NullVectorError
      else Inr (Vector (vx a / Length a) (vy a / Length a) (vz a / Length a)))"

record Matrix =
  A11 :: real  A12 :: real  A13 :: real  A14 :: real
  A21 :: real  A22 :: real  A23 :: real  A24 :: real
  A31 :: real  A32 :: real  A33 :: real  A34 :: real
  A41 :: real  A42 :: real  A43 :: real  A44 :: real

definition unity :: Matrix where
  "unity = \<lparr> A11 = 1, A12 = 0, A13 = 0, A14 = 0,
             A21 = 0, A22 = 1, A23 = 0, A24 = 0,
             A31 = 0, A32 = 0, A33 = 1, A34 = 0,
             A41 = 0, A42 = 0, A43 = 0, A44 = 1 \<rparr>"

definition multVec :: "Matrix \<Rightarrow> Vector \<Rightarrow> Vector" where
  "multVec m p =
     Vector (A11 m * vx p + A12 m * vy p + A13 m * vz p + A14 m)
            (A21 m * vx p + A22 m * vy p + A23 m * vz p + A24 m)
            (A31 m * vx p + A32 m * vy p + A33 m * vz p + A34 m)"

subsection \<open>The mirror transform of \<^verbatim>\<open>find_symmetric_face_pairs\<close>\<close>

text \<open>
  Lines 52 to 65: the matrix starts as the identity and its first three rows are
  overwritten from the (normalised) \<^verbatim>\<open>normal\<close> and the \<^verbatim>\<open>midpoint\<close>.
\<close>

definition mirror_transform :: "Vector \<Rightarrow> Vector \<Rightarrow> Matrix" where
  "mirror_transform normal midpoint =
     unity \<lparr> A11 := 1 - 2 * vx normal * vx normal,
             A12 := - 2 * vx normal * vy normal,
             A13 := - 2 * vx normal * vz normal,
             A14 := 2 * vx normal * dot midpoint normal,
             A21 := - 2 * vy normal * vx normal,
             A22 := 1 - 2 * vy normal * vy normal,
             A23 := - 2 * vy normal * vz normal,
             A24 := 2 * vy normal * dot midpoint normal,
             A31 := - 2 * vz normal * vx normal,
             A32 := - 2 * vz normal * vy normal,
             A33 := 1 - 2 * vz normal * vz normal,
             A34 := 2 * vz normal * dot midpoint normal \<rparr>"

text \<open>The reflection the specification names: \<open>p - 2 n (n \<cdot> (p - midpoint))\<close>.\<close>

definition householder :: "Vector \<Rightarrow> Vector \<Rightarrow> Vector \<Rightarrow> Vector" where
  "householder n midpoint p = sub p (multiply n (2 * dot n (sub p midpoint)))"

subsection \<open>Face pairs and plane groups\<close>

text \<open>
  A face pair is the tuple \<^verbatim>\<open>(i, j, midpoint, normal)\<close> appended at line 72;
  \<^verbatim>\<open>pair[2]\<close> and \<^verbatim>\<open>pair[3]\<close> are its midpoint and its normal.
\<close>

type_synonym FacePair = "nat \<times> nat \<times> Vector \<times> Vector"

fun pair_midpoint :: "FacePair \<Rightarrow> Vector" where
  "pair_midpoint (i, j, midpoint, normal) = midpoint"

fun pair_normal :: "FacePair \<Rightarrow> Vector" where
  "pair_normal (i, j, midpoint, normal) = normal"

subsection \<open>The geometry kernel\<close>

text \<open>
  Faces, edges and the operations on them belong to FreeCAD.  The program only reads
  them through the attributes and methods below, so a kernel is a record of these
  operations over an arbitrary type \<open>'f\<close> of faces, and every function of the program
  takes the kernel as a parameter.  \<^verbatim>\<open>Vertexes\<close> gives the \<^verbatim>\<open>Point\<close> of each vertex,
  \<^verbatim>\<open>DiagonalLength\<close> is \<^verbatim>\<open>BoundBox.DiagonalLength\<close>, and
  \<^verbatim>\<open>distToShape K face point\<close> is \<^verbatim>\<open>face.distToShape(Part.Vertex(point))[0]\<close>.  The two
  calls the program wraps in \<^verbatim>\<open>try\<close> return \<open>None\<close> when they raise.
\<close>

record Edge =
  edge_Length :: real
  FirstParameter :: real
  LastParameter :: real
  valueAt :: "real \<Rightarrow> Vector option"

record 'f Kernel =
  Area :: "'f \<Rightarrow> real"
  Edges :: "'f \<Rightarrow> Edge list"
  CenterOfMass :: "'f \<Rightarrow> Vector"
  Vertexes :: "'f \<Rightarrow> Vector list"
  DiagonalLength :: "'f \<Rightarrow> real"
  transformGeometry :: "'f \<Rightarrow> Matrix \<Rightarrow> 'f"
  distToShape :: "'f \<Rightarrow> Vector \<Rightarrow> real option"

subsection \<open>\<^verbatim>\<open>check_faces_coincident\<close>\<close>

text \<open>
  Lines 93 to 100: for each edge, the points at the parameters
  \<open>first + (i / 5) (last - first)\<close> for \<open>i\<close> in \<^verbatim>\<open>range(1, 5)\<close>; a point whose evaluation
  raises is left out.
\<close>

definition samples_per_edge :: nat where
  "samples_per_edge = 5"

definition edge_samples :: "Edge \<Rightarrow> Vector list" where
  "edge_samples edge =
     concat (map (\<lambda>i.
        let param = FirstParameter edge
              + (real i / real samples_per_edge) * (LastParameter edge - FirstParameter edge)
        in case valueAt edge param of None \<Rightarrow> [] | Some point \<Rightarrow> [point])
       [1..<samples_per_edge])"

text \<open>Lines 86 to 100: the vertices first, then the samples of every edge.\<close>

definition points_to_check :: "'f Kernel \<Rightarrow> 'f \<Rightarrow> Vector list" where
  "points_to_check K face1 = Vertexes K face1 @ concat (map edge_samples (Edges K face1))"

text \<open>
  Line 116, \<^verbatim>\<open>0.7 * len(points_to_check)\<close>, in double precision.  A double has a
  significand of 53 bits and rounds to the nearest value, ties to the even significand
  (the exponent range plays no part for a list length).  The literal \<^verbatim>\<open>0.7\<close> is the
  double \<open>6305039478318694 / 2^53\<close>; the length is converted to a double, and the
  product of the two is rounded once.  So \<open>double_0_7_times 20 = 14\<close> and
  \<open>double_0_7_times 10 = 7\<close>, but \<open>double_0_7_times 90\<close> is just below 63.
\<close>

function bit_length :: "nat \<Rightarrow> nat" where
  "bit_length m = (if m = 0 then 0 else Suc (bit_length (m div 2)))"
  by pat_completeness auto
termination
  by (relation "measure id") auto

declare bit_length.simps [simp del]

definition round_to_53_bits :: "nat \<Rightarrow> nat" where
  "round_to_53_bits m =
     (if bit_length m \<le> 53 then m
      else
        let s = bit_length m - 53;
            q = m div 2 ^ s;
            r = m mod 2 ^ s
        in (if 2 * r > 2 ^ s \<or> (2 * r = 2 ^ s \<and> odd q) then q + 1 else q) * 2 ^ s)"

definition double_0_7_times :: "int \<Rightarrow> real" where
  "double_0_7_times n =
     real (round_to_53_bits (6305039478318694 * round_to_53_bits (nat n))) / 2 ^ 53"

text \<open>
  Lines 106 to 113: the counter goes up for a point whose distance is below the
  tolerance; a distance query that raises leaves it as it is.
\<close>

definition match_count :: "'f Kernel \<Rightarrow> 'f \<Rightarrow> real \<Rightarrow> Vector list \<Rightarrow> nat" where
  "match_count K face2 tolerance points =
     foldl (\<lambda>count point.
        case distToShape K face2 point of
          None \<Rightarrow> count
        | Some distance \<Rightarrow> if distance < tolerance then count + 1 else count)
       0 points"

definition check_faces_coincident :: "'f Kernel \<Rightarrow> 'f \<Rightarrow> 'f \<Rightarrow> real \<Rightarrow> bool" where
  "check_faces_coincident K face1 face2 tolerance =
     (if \<bar>DiagonalLength K face1 - DiagonalLength K face2\<bar> > tolerance then False
      else if points_to_check K face1 = [] then False
      else real (match_count K face2 tolerance (points_to_check K face1))
             > double_0_7_times (int (length (points_to_check K face1))))"

text \<open>
  The specification's count of matched samples: the samples for which the distance
  query answers, with a distance below the tolerance.
\<close>

definition matched :: "'f Kernel \<Rightarrow> 'f \<Rightarrow> real \<Rightarrow> Vector \<Rightarrow> bool" where
  "matched K face2 tolerance point =
     (case distToShape K face2 point of None \<Rightarrow> False | Some distance \<Rightarrow> distance < tolerance)"

subsection \<open>\<^verbatim>\<open>find_symmetric_face_pairs\<close>\<close>

text \<open>
  A \<^verbatim>\<open>for\<close> loop over a list whose body may raise: the state is threaded through the
  elements in order and the first exception ends the loop.
\<close>

fun for_each :: "'a list \<Rightarrow> ('a \<Rightarrow> 's \<Rightarrow> error + 's) \<Rightarrow> 's \<Rightarrow> error + 's" where
  "for_each [] body s = Inr s"
| "for_each (x # xs) body s =
     (case body x s of Inl e \<Rightarrow> Inl e | Inr s' \<Rightarrow> for_each xs body s')"

text \<open>
  Lines 27 to 65 for two faces: the two filters, the midpoint, the guard on the
  distance of the centres, the normalisation (in place, and it can raise) and the
  matrix.  The result is \<open>None\<close> where the program says \<^verbatim>\<open>continue\<close>.
\<close>

definition perimeter :: "'f Kernel \<Rightarrow> 'f \<Rightarrow> real" where
  "perimeter K face = sum_list (map edge_Length (Edges K face))"

definition mirror_hypothesis ::
  "'f Kernel \<Rightarrow> real \<Rightarrow> 'f \<Rightarrow> 'f \<Rightarrow> error + (Vector \<times> Vector \<times> Matrix) option" where
  "mirror_hypothesis K tolerance face_a face_b =
     (if \<bar>Area K face_a - Area K face_b\<bar> > tolerance then Inr None
      else if \<bar>perimeter K face_a - perimeter K face_b\<bar> > tolerance then Inr None
      else
        let center_a = CenterOfMass K face_a;
            center_b = CenterOfMass K face_b;
            midpoint = Vector ((vx center_a + vx center_b) / 2)
                              ((vy center_a + vy center_b) / 2)
                              ((vz center_a + vz center_b) / 2);
            normal = sub center_b center_a
        in if Length normal < tolerance then Inr None
           else case normalize_vector normal of
                  Inl e \<Rightarrow> Inl e
                | Inr normal' \<Rightarrow> Inr (Some (midpoint, normal', mirror_transform normal' midpoint)))"

text \<open>
  The body of the inner loop, lines 22 to 72: the pair is appended when the mirrored
  first face coincides with the second.
\<close>

definition try_pair ::
  "'f Kernel \<Rightarrow> real \<Rightarrow> 'f list \<Rightarrow> nat \<Rightarrow> nat \<Rightarrow> FacePair list \<Rightarrow> error + FacePair list" where
  "try_pair K tolerance faces i j face_pairs =
     (let face_a = faces ! i; face_b = faces ! j in
      case mirror_hypothesis K tolerance face_a face_b of
        Inl e \<Rightarrow> Inl e
      | Inr None \<Rightarrow> Inr face_pairs
      | Inr (Some (midpoint, normal, mirror_matrix)) \<Rightarrow>
          let mirrored_face = transformGeometry K face_a mirror_matrix in
          if check_faces_coincident K mirrored_face face_b tolerance
          then Inr (face_pairs @ [(i, j, midpoint, normal)])
          else Inr face_pairs)"

text \<open>Lines 16 to 74; \<open>shape\<close> is the list \<^verbatim>\<open>shape.Faces\<close>.\<close>

definition find_symmetric_face_pairs :: "'f Kernel \<Rightarrow> 'f list \<Rightarrow> real \<Rightarrow> error + FacePair list" where
  "find_symmetric_face_pairs K shape tolerance =
     (let faces = shape in
      for_each [0..<length faces]
        (\<lambda>i. for_each [i + 1..<length faces] (try_pair K tolerance faces i))
        [])"


text \<open>
  Three functions for the proofs.  \<open>pair_result\<close> is the verdict of lines 27 to 72 on
  two faces: an exception, nothing, or the midpoint and the normal of the pair to
  append.  \<open>emitted\<close> is the list of pairs one pass of the inner body appends, and
  \<open>gather\<close> concatenates such lists over a range, stopping at the first exception.
\<close>

definition pair_result :: "'f Kernel \<Rightarrow> real \<Rightarrow> 'f \<Rightarrow> 'f \<Rightarrow> error + (Vector \<times> Vector) option" where
  "pair_result K tolerance face_a face_b =
     (case mirror_hypothesis K tolerance face_a face_b of
        Inl e \<Rightarrow> Inl e
      | Inr None \<Rightarrow> Inr None
      | Inr (Some (midpoint, normal, mirror_matrix)) \<Rightarrow>
          if check_faces_coincident K (transformGeometry K face_a mirror_matrix) face_b tolerance
          then Inr (Some (midpoint, normal)) else Inr None)"

fun gather :: "'a list \<Rightarrow> ('a \<Rightarrow> error + 'p list) \<Rightarrow> error + 'p list" where
  "gather [] g = Inr []"
| "gather (x # xs) g =
     (case g x of
        Inl e \<Rightarrow> Inl e
      | Inr ps \<Rightarrow> (case gather xs g of Inl e \<Rightarrow> Inl e | Inr qs \<Rightarrow> Inr (ps @ qs)))"

definition emitted :: "'f Kernel \<Rightarrow> real \<Rightarrow> 'f list \<Rightarrow> nat \<Rightarrow> nat \<Rightarrow> error + FacePair list" where
  "emitted K tolerance faces i j =
     (case pair_result K tolerance (faces ! i) (faces ! j) of
        Inl e \<Rightarrow> Inl e
      | Inr None \<Rightarrow> Inr []
      | Inr (Some (midpoint, normal)) \<Rightarrow> Inr [(i, j, midpoint, normal)])"

text \<open>The componentwise average of two points, the midpoint of lines 41 to 43.\<close>

definition midpoint_of :: "Vector \<Rightarrow> Vector \<Rightarrow> Vector" where
  "midpoint_of center_a center_b =
     Vector ((vx center_a + vx center_b) / 2)
            ((vy center_a + vy center_b) / 2)
            ((vz center_a + vz center_b) / 2)"

text \<open>
  Whether the pair test stores a pair for two faces taken in this order, and the
  unordered pairs of faces of a result, each face named through \<open>position\<close> (the
  place it has in a reference enumeration of the shape).
\<close>

definition emits :: "'f Kernel \<Rightarrow> real \<Rightarrow> 'f \<Rightarrow> 'f \<Rightarrow> bool" where
  "emits K tolerance face_a face_b =
     (case pair_result K tolerance face_a face_b of Inr (Some found) \<Rightarrow> True | _ \<Rightarrow> False)"

definition unordered_faces :: "(nat \<Rightarrow> nat) \<Rightarrow> FacePair list \<Rightarrow> nat set set" where
  "unordered_faces position face_pairs =
     (\<lambda>(i, j, midpoint, normal). {position i, position j}) ` set face_pairs"

subsection \<open>Plane groups\<close>

text \<open>
  Lines 128 to 143 of \<^verbatim>\<open>find_significant_mirror_plane\<close>.  The inner loop walks the
  groups in order, appends the pair to the first group whose first normal is similar
  and stops there; the flag \<^verbatim>\<open>found_group\<close> is the second component.  A pair that
  found no group opens a new one at the end of the list.
\<close>

fun scan_groups_significant :: "FacePair \<Rightarrow> FacePair list list \<Rightarrow> FacePair list list \<times> bool" where
  "scan_groups_significant pair [] = ([], False)"
| "scan_groups_significant pair (grp # rest) =
     (if \<bar>dot (pair_normal pair) (pair_normal (grp ! 0))\<bar> > 0.98
      then ((grp @ [pair]) # rest, True)
      else (case scan_groups_significant pair rest of
              (rest', found_group) \<Rightarrow> (grp # rest', found_group)))"

definition add_pair_significant :: "FacePair list list \<Rightarrow> FacePair \<Rightarrow> FacePair list list" where
  "add_pair_significant plane_groups pair =
     (case scan_groups_significant pair plane_groups of
        (plane_groups', found_group) \<Rightarrow>
          if \<not> found_group then plane_groups' @ [[pair]] else plane_groups')"

definition plane_groups_significant :: "FacePair list \<Rightarrow> FacePair list list" where
  "plane_groups_significant face_pairs = foldl add_pair_significant [] face_pairs"

text \<open>Lines 284 to 299 of \<^verbatim>\<open>find_all_mirror_planes\<close>: the same loop, written again.\<close>

fun scan_groups_all :: "FacePair \<Rightarrow> FacePair list list \<Rightarrow> FacePair list list \<times> bool" where
  "scan_groups_all pair [] = ([], False)"
| "scan_groups_all pair (grp # rest) =
     (if \<bar>dot (pair_normal pair) (pair_normal (grp ! 0))\<bar> > 0.98
      then ((grp @ [pair]) # rest, True)
      else (case scan_groups_all pair rest of
              (rest', found_group) \<Rightarrow> (grp # rest', found_group)))"

definition add_pair_all :: "FacePair list list \<Rightarrow> FacePair \<Rightarrow> FacePair list list" where
  "add_pair_all plane_groups pair =
     (case scan_groups_all pair plane_groups of
        (plane_groups', found_group) \<Rightarrow>
          if \<not> found_group then plane_groups' @ [[pair]] else plane_groups')"

definition plane_groups_all :: "FacePair list \<Rightarrow> FacePair list list" where
  "plane_groups_all face_pairs = foldl add_pair_all [] face_pairs"

text \<open>
  \<^verbatim>\<open>max(plane_groups, key=len)\<close>: the first group of maximal length (a later group
  replaces the candidate only when it is strictly longer).  The list of groups is never
  empty where the program calls it.
\<close>

fun max_by_len :: "'a list list \<Rightarrow> 'a list" where
  "max_by_len (grp # rest) =
     foldl (\<lambda>best g. if length best < length g then g else best) grp rest"

text \<open>
  Lines 149 to 157, repeated at 309 to 317: the sums of the normals and of the
  midpoints, then \<^verbatim>\<open>avg_normal.normalize()\<close>, which can raise, then the division of
  the point sum by the size of the group.
\<close>

definition sum_normals :: "FacePair list \<Rightarrow> Vector" where
  "sum_normals grp = foldl (\<lambda>avg_normal pair. add avg_normal (pair_normal pair)) (Vector 0 0 0) grp"

definition sum_points :: "FacePair list \<Rightarrow> Vector" where
  "sum_points grp = foldl (\<lambda>avg_point pair. add avg_point (pair_midpoint pair)) (Vector 0 0 0) grp"

definition average_plane :: "FacePair list \<Rightarrow> error + (Vector \<times> Vector)" where
  "average_plane grp =
     (case normalize_vector (sum_normals grp) of
        Inl e \<Rightarrow> Inl e
      | Inr avg_normal \<Rightarrow>
          Inr (multiply (sum_points grp) (1 / real (length grp)), avg_normal))"

text \<open>Lines 160 to 163, repeated at 320 to 323: the set of face indices of a group.\<close>

definition unique_faces :: "FacePair list \<Rightarrow> nat set" where
  "unique_faces grp = foldl (\<lambda>s (i, j, _, _). insert j (insert i s)) {} grp"

text \<open>
  The specification's reading of the index set of a group: the face indices that occur
  in some pair of it.
\<close>

definition face_indices :: "FacePair list \<Rightarrow> nat set" where
  "face_indices ps = (\<Union>(i, j, midpoint, normal) \<in> set ps. {i, j})"

text \<open>\<^verbatim>\<open>len(unique_faces) / total_faces\<close>: true division, which raises on zero.\<close>

definition coverage_of :: "FacePair list \<Rightarrow> nat \<Rightarrow> error + real" where
  "coverage_of grp total_faces =
     (if total_faces = 0 then Inl ZeroDivisionError
      else Inr (real (card (unique_faces grp)) / real total_faces))"

subsection \<open>\<^verbatim>\<open>find_significant_mirror_plane\<close>\<close>

definition find_significant_mirror_plane ::
  "FacePair list \<Rightarrow> nat \<Rightarrow> error + ((Vector \<times> Vector) option \<times> string)" where
  "find_significant_mirror_plane face_pairs total_faces =
     (if face_pairs = [] then Inr (None, ''No symmetrical faces found'')
      else
        let largest_group = max_by_len (plane_groups_significant face_pairs) in
        case average_plane largest_group of
          Inl e \<Rightarrow> Inl e
        | Inr mirror_plane \<Rightarrow>
            (case coverage_of largest_group total_faces of
               Inl e \<Rightarrow> Inl e
             | Inr coverage \<Rightarrow>
                 if coverage < 0.2 then Inr (None, ''No significant symmetry detected'')
                 else if coverage < 0.6 then Inr (Some mirror_plane, ''Partial symmetry detected'')
                 else Inr (Some mirror_plane, ''Full symmetry detected'')))"

subsection \<open>\<^verbatim>\<open>find_all_mirror_planes\<close>\<close>

text \<open>The dictionary appended at lines 328 to 333.\<close>

record PlaneInfo =
  plane :: "Vector \<times> Vector"
  coverage :: real
  pairs :: "FacePair list"
  face_count :: nat

text \<open>
  Lines 303 to 333: the loop over the groups.  A group of fewer than two pairs is
  skipped; an exception raised for a group ends the whole call.
\<close>

fun collect_planes :: "nat \<Rightarrow> FacePair list list \<Rightarrow> PlaneInfo list \<Rightarrow> error + PlaneInfo list" where
  "collect_planes total_faces [] mirror_planes = Inr mirror_planes"
| "collect_planes total_faces (grp # rest) mirror_planes =
     (if length grp < 2 then collect_planes total_faces rest mirror_planes
      else
        case average_plane grp of
          Inl e \<Rightarrow> Inl e
        | Inr mirror_plane \<Rightarrow>
            (case coverage_of grp total_faces of
               Inl e \<Rightarrow> Inl e
             | Inr c \<Rightarrow>
                 collect_planes total_faces rest
                   (mirror_planes @
                     [\<lparr> plane = mirror_plane, coverage = c, pairs = grp,
                        face_count = card (unique_faces grp) \<rparr>])))"

text \<open>
  \<^verbatim>\<open>sort(key=coverage, reverse=True)\<close> is a stable sort by descending coverage, which
  is the stable ascending sort by the negated key.
\<close>

definition find_all_mirror_planes ::
  "FacePair list \<Rightarrow> nat \<Rightarrow> error + (PlaneInfo list \<times> string)" where
  "find_all_mirror_planes face_pairs total_faces =
     (if face_pairs = [] then Inr ([], ''No symmetrical faces found'')
      else
        case collect_planes total_faces (plane_groups_all face_pairs) [] of
          Inl e \<Rightarrow> Inl e
        | Inr mirror_planes \<Rightarrow>
            let sorted_planes = sort_key (\<lambda>x. - coverage x) mirror_planes in
            if sorted_planes = [] then Inr ([], ''No significant symmetry detected'')
            else Inr (sorted_planes, ''Multiple symmetry planes detected''))"

subsection \<open>A kernel of rectangular faces\<close>

text \<open>
  A small kernel for the examples: a face is a flat rectangle in space, given by a
  corner, the unit directions of its two sides and their lengths.  Its edges are the
  four straight sides, parametrised by arc length; the distance of a point is the
  distance to the nearest point of the rectangle; a transform moves the corner and
  the two directions (the program only transforms by reflections).
\<close>

record Rect =
  rect_origin :: Vector
  rect_u :: Vector
  rect_v :: Vector
  rect_width :: real
  rect_height :: real

definition line_edge :: "Vector \<Rightarrow> Vector \<Rightarrow> real \<Rightarrow> Edge" where
  "line_edge start direction len =
     \<lparr> edge_Length = len, FirstParameter = 0, LastParameter = len,
       valueAt = (\<lambda>t. Some (add start (multiply direction t))) \<rparr>"

definition rect_corners :: "Rect \<Rightarrow> Vector list" where
  "rect_corners r =
     (let o1 = rect_origin r;
          o2 = add o1 (multiply (rect_u r) (rect_width r));
          o3 = add o2 (multiply (rect_v r) (rect_height r));
          o4 = add o1 (multiply (rect_v r) (rect_height r))
      in [o1, o2, o3, o4])"

definition rect_edges :: "Rect \<Rightarrow> Edge list" where
  "rect_edges r =
     (let o1 = rect_origin r;
          o2 = add o1 (multiply (rect_u r) (rect_width r));
          o3 = add o2 (multiply (rect_v r) (rect_height r));
          o4 = add o1 (multiply (rect_v r) (rect_height r))
      in [line_edge o1 (rect_u r) (rect_width r),
          line_edge o2 (rect_v r) (rect_height r),
          line_edge o3 (multiply (rect_u r) (- 1)) (rect_width r),
          line_edge o4 (multiply (rect_v r) (- 1)) (rect_height r)])"

definition rect_center :: "Rect \<Rightarrow> Vector" where
  "rect_center r =
     add (rect_origin r)
       (add (multiply (rect_u r) (rect_width r / 2)) (multiply (rect_v r) (rect_height r / 2)))"

definition extent :: "real list \<Rightarrow> real" where
  "extent xs = Max (set xs) - Min (set xs)"

definition rect_diagonal :: "Rect \<Rightarrow> real" where
  "rect_diagonal r =
     Length (Vector (extent (map vx (rect_corners r)))
                    (extent (map vy (rect_corners r)))
                    (extent (map vz (rect_corners r))))"

definition rect_transform :: "Rect \<Rightarrow> Matrix \<Rightarrow> Rect" where
  "rect_transform r m =
     \<lparr> rect_origin = multVec m (rect_origin r),
       rect_u = sub (multVec m (add (rect_origin r) (rect_u r))) (multVec m (rect_origin r)),
       rect_v = sub (multVec m (add (rect_origin r) (rect_v r))) (multVec m (rect_origin r)),
       rect_width = rect_width r,
       rect_height = rect_height r \<rparr>"

definition rect_distance :: "Rect \<Rightarrow> Vector \<Rightarrow> real option" where
  "rect_distance r p =
     (let d = sub p (rect_origin r);
          s = min (rect_width r) (max 0 (dot d (rect_u r)));
          t = min (rect_height r) (max 0 (dot d (rect_v r)));
          nearest = add (rect_origin r) (add (multiply (rect_u r) s) (multiply (rect_v r) t))
      in Some (Length (sub p nearest)))"

definition rect_kernel :: "Rect Kernel" where
  "rect_kernel =
     \<lparr> Area = (\<lambda>r. rect_width r * rect_height r),
       Edges = rect_edges,
       CenterOfMass = rect_center,
       Vertexes = rect_corners,
       DiagonalLength = rect_diagonal,
       transformGeometry = rect_transform,
       distToShape = rect_distance \<rparr>"

text \<open>
  Faces for the examples: unit squares parallel to the plane \<open>z = 0\<close>, and a 3 by 4
  rectangle that lies inside a 6 by 8 rectangle of the same plane.
\<close>

definition square_at :: "real \<Rightarrow> Rect" where
  "square_at z0 = \<lparr> rect_origin = Vector 0 0 z0, rect_u = Vector 1 0 0, rect_v = Vector 0 1 0,
                    rect_width = 1, rect_height = 1 \<rparr>"

definition small_rect :: Rect where
  "small_rect = \<lparr> rect_origin = Vector 0 0 0, rect_u = Vector 1 0 0, rect_v = Vector 0 1 0,
                   rect_width = 3, rect_height = 4 \<rparr>"

definition large_rect :: Rect where
  "large_rect = \<lparr> rect_origin = Vector 0 0 0, rect_u = Vector 1 0 0, rect_v = Vector 0 1 0,
                   rect_width = 6, rect_height = 8 \<rparr>"

text \<open>
  Two plates for the order of enumeration: a 0.6 by 0.8 rectangle in the plane
  \<open>z = 0\<close> and a 0.48 by 0.9 rectangle in the plane \<open>z = 2\<close> with the same centre line;
  and the exchange of the positions 0 and 1.
\<close>

definition plate_a :: Rect where
  "plate_a = \<lparr> rect_origin = Vector 0 0 0, rect_u = Vector 1 0 0, rect_v = Vector 0 1 0,
                rect_width = 3 / 5, rect_height = 4 / 5 \<rparr>"

definition plate_b :: Rect where
  "plate_b = \<lparr> rect_origin = Vector (3 / 50) (- (1 / 20)) 2, rect_u = Vector 1 0 0,
                rect_v = Vector 0 1 0, rect_width = 12 / 25, rect_height = 9 / 10 \<rparr>"

definition swap01 :: "nat \<Rightarrow> nat" where
  "swap01 k = 1 - k"

text \<open>
  A part with two small and two large square faces across the plane \<open>x = 0\<close>: unit
  squares at \<open>x = -2\<close> and \<open>x = 2\<close>, squares of side 2 at \<open>x = 1\<close> and \<open>x = -1\<close>, in
  this order of enumeration.
\<close>

definition wall :: "real \<Rightarrow> real \<Rightarrow> Rect" where
  "wall x0 side = \<lparr> rect_origin = Vector x0 0 0, rect_u = Vector 0 1 0, rect_v = Vector 0 0 1,
                     rect_width = side, rect_height = side \<rparr>"

definition stepped_part :: "Rect list" where
  "stepped_part = [wall (- 2) 1, wall 2 1, wall 1 2, wall (- 1) 2]"

section \<open>Properties\<close>

subsection \<open>Vectors\<close>

lemma Length_nonneg: "0 \<le> Length a"
  by (simp add: Length_def)

lemma Length_sq: "Length a * Length a = dot a a"
  by (simp add: Length_def dot_def)

lemma unit_dot: "Length n = 1 \<Longrightarrow> dot n n = 1"
  using Length_sq [of n] by simp

lemma epsilon_pos: "0 < epsilon"
  by (simp add: epsilon_def)

lemma normalize_unit:
  assumes "normalize_vector a = Inr n"
  shows "Length n = 1"
proof -
  from assms have len: "\<not> Length a < epsilon"
    and n: "n = Vector (vx a / Length a) (vy a / Length a) (vz a / Length a)"
    by (auto simp: normalize_vector_def split: if_splits)
  from len epsilon_pos have pos: "0 < Length a" by linarith
  have "dot n n = dot a a / (Length a * Length a)"
    by (simp add: n dot_def add_divide_distrib)
  also have "\<dots> = 1" using pos by (simp add: Length_sq [symmetric])
  finally have "dot n n = 1" .
  then have "Length n = sqrt 1"
    by (simp add: Length_def dot_def)
  then show ?thesis by simp
qed

subsection \<open>The mirror transform\<close>

lemma multVec_mirror_transform:
  "multVec (mirror_transform n m) p =
     Vector (vx p - 2 * vx n * (dot n p - dot m n))
            (vy p - 2 * vy n * (dot n p - dot m n))
            (vz p - 2 * vz n * (dot n p - dot m n))"
  by (simp add: multVec_def mirror_transform_def unity_def dot_def algebra_simps)

text \<open>
  Claim C2.  For every normal \<open>n\<close> (in particular every unit normal), every plane point
  \<open>midpoint\<close> and every point \<open>p\<close>, the matrix built from the entries A11 to A34 maps
  \<open>p\<close> to the Householder reflection \<open>p - 2 n (n \<cdot> (p - midpoint))\<close>.
\<close>

theorem mirror_transform_is_householder:
  "multVec (mirror_transform n midpoint) p = householder n midpoint p"
  by (simp add: multVec_mirror_transform householder_def sub_def multiply_def dot_def
      algebra_simps)

text \<open>
  Claim C1.  For a unit normal \<open>n\<close> and any plane point, the constructed reflection is
  an involution: applying it twice to any point \<open>p\<close> gives \<open>p\<close> back (exactly, in real
  arithmetic).
\<close>

theorem mirror_transform_involution:
  assumes "Length n = 1"
  shows "multVec (mirror_transform n midpoint) (multVec (mirror_transform n midpoint) p) = p"
proof -
  let ?d = "dot n p - dot midpoint n"
  let ?q = "multVec (mirror_transform n midpoint) p"
  have nn: "dot n n = 1" using assms by (rule unit_dot)
  have q: "?q = Vector (vx p - 2 * vx n * ?d) (vy p - 2 * vy n * ?d) (vz p - 2 * vz n * ?d)"
    by (rule multVec_mirror_transform)
  have "dot n ?q = dot n p - 2 * ?d * dot n n"
    by (simp add: q dot_def algebra_simps)
  then have d': "dot n ?q - dot midpoint n = - ?d"
    by (simp add: nn)
  have "multVec (mirror_transform n midpoint) ?q =
      Vector (vx ?q - 2 * vx n * (dot n ?q - dot midpoint n))
             (vy ?q - 2 * vy n * (dot n ?q - dot midpoint n))
             (vz ?q - 2 * vz n * (dot n ?q - dot midpoint n))"
    by (rule multVec_mirror_transform)
  also have "\<dots> = Vector (vx ?q + 2 * vx n * ?d) (vy ?q + 2 * vy n * ?d) (vz ?q + 2 * vz n * ?d)"
    by (simp only: d') (simp add: algebra_simps)
  also have "\<dots> = p"
    by (simp add: q)
  finally show ?thesis .
qed

theorem mirror_transform_involution_witness:
  "Length (Vector 1 0 0) = 1 \<and>
   multVec (mirror_transform (Vector 1 0 0) (Vector 1 2 3))
     (multVec (mirror_transform (Vector 1 0 0) (Vector 1 2 3)) (Vector 4 5 6)) = Vector 4 5 6"
proof -
  have h: "Length (Vector 1 0 0) = 1" by (simp add: Length_def)
  show ?thesis
    using h mirror_transform_involution [OF h, of "Vector 1 2 3" "Vector 4 5 6"] by simp
qed

subsection \<open>Properties of the plane groups\<close>

lemma scan_groups_significant_eq_all:
  "scan_groups_significant pair gs = scan_groups_all pair gs"
  by (induction gs) simp_all

lemma add_pair_significant_eq_all: "add_pair_significant = add_pair_all"
  by (intro ext) (simp add: add_pair_significant_def add_pair_all_def scan_groups_significant_eq_all)

lemma plane_groups_significant_eq_all:
  "plane_groups_significant face_pairs = plane_groups_all face_pairs"
  by (simp add: plane_groups_significant_def plane_groups_all_def add_pair_significant_eq_all)

lemma scan_groups_all_props:
  assumes "scan_groups_all pair gs = (gs', found)"
  shows "(found \<longrightarrow> set (concat gs') = insert pair (set (concat gs)))
       \<and> (\<not> found \<longrightarrow> gs' = gs)
       \<and> ([] \<notin> set gs \<longrightarrow> [] \<notin> set gs')"
  using assms
proof (induction gs arbitrary: gs' found)
  case Nil
  then show ?case by simp
next
  case (Cons g gs)
  show ?case
  proof (cases "\<bar>dot (pair_normal pair) (pair_normal (g ! 0))\<bar> > 0.98")
    case True
    with Cons.prems show ?thesis by (auto simp del: set_concat)
  next
    case False
    obtain r f where rf: "scan_groups_all pair gs = (r, f)" by (cases "scan_groups_all pair gs")
    with Cons.prems False have eq: "gs' = g # r" "found = f" by simp_all
    from Cons.IH [OF rf] show ?thesis
      unfolding eq by (simp del: set_concat)
  qed
qed

lemma add_pair_all_members:
  "set (concat (add_pair_all gs pair)) = insert pair (set (concat gs))"
proof -
  obtain r f where rf: "scan_groups_all pair gs = (r, f)" by (cases "scan_groups_all pair gs")
  from scan_groups_all_props [OF rf] rf show ?thesis
    by (cases f) (simp_all add: add_pair_all_def del: set_concat)
qed

lemma add_pair_all_nonempty_groups:
  assumes "[] \<notin> set gs"
  shows "[] \<notin> set (add_pair_all gs pair)"
proof -
  obtain r f where rf: "scan_groups_all pair gs = (r, f)" by (cases "scan_groups_all pair gs")
  from scan_groups_all_props [OF rf] rf assms show ?thesis
    by (cases f) (simp_all add: add_pair_all_def)
qed

lemma add_pair_all_not_Nil: "add_pair_all gs pair \<noteq> []"
  by (cases gs) (auto simp: add_pair_all_def split: prod.splits if_splits)

lemma foldl_add_pair_all_members:
  "set (concat (foldl add_pair_all gs face_pairs)) = set (concat gs) \<union> set face_pairs"
  by (induction face_pairs arbitrary: gs) (simp_all add: add_pair_all_members del: set_concat)

lemma foldl_add_pair_all_nonempty_groups:
  "[] \<notin> set gs \<Longrightarrow> [] \<notin> set (foldl add_pair_all gs face_pairs)"
  by (induction face_pairs arbitrary: gs) (simp_all add: add_pair_all_nonempty_groups)

lemma foldl_add_pair_all_not_Nil:
  "face_pairs \<noteq> [] \<Longrightarrow> foldl add_pair_all gs face_pairs \<noteq> []"
proof (induction face_pairs arbitrary: gs)
  case Nil
  then show ?case by simp
next
  case (Cons p ps)
  show ?case
  proof (cases ps)
    case Nil
    then show ?thesis by (simp add: add_pair_all_not_Nil)
  next
    case (Cons q qs)
    with Cons.IH [of "add_pair_all gs p"] show ?thesis by simp
  qed
qed

lemma plane_groups_all_members:
  "set (concat (plane_groups_all face_pairs)) = set face_pairs"
  by (simp add: plane_groups_all_def foldl_add_pair_all_members del: set_concat)

lemma plane_groups_all_nonempty_groups: "[] \<notin> set (plane_groups_all face_pairs)"
  by (simp add: plane_groups_all_def foldl_add_pair_all_nonempty_groups)

lemma plane_groups_all_not_Nil: "face_pairs \<noteq> [] \<Longrightarrow> plane_groups_all face_pairs \<noteq> []"
  by (simp add: plane_groups_all_def foldl_add_pair_all_not_Nil)

text \<open>
  Every group is created with one pair and only grows, and a non-empty list of pairs
  gives at least one group: \<^verbatim>\<open>group[0]\<close> and \<^verbatim>\<open>max(plane_groups, key=len)\<close> are
  never applied to an empty list.
\<close>

lemma plane_groups_significant_nonempty_groups:
  "[] \<notin> set (plane_groups_significant face_pairs)"
  by (simp add: plane_groups_significant_eq_all plane_groups_all_nonempty_groups)

lemma plane_groups_significant_not_Nil:
  "face_pairs \<noteq> [] \<Longrightarrow> plane_groups_significant face_pairs \<noteq> []"
  by (simp add: plane_groups_significant_eq_all plane_groups_all_not_Nil)

lemma foldl_unique_faces:
  "foldl (\<lambda>s (i, j, _, _). insert j (insert i s)) s0 grp = s0 \<union> face_indices grp"
  by (induction grp arbitrary: s0) (auto simp: face_indices_def)

lemma unique_faces_eq: "unique_faces grp = face_indices grp"
  by (simp add: unique_faces_def foldl_unique_faces)

lemma finite_face_indices: "finite (face_indices grp)"
  by (auto simp: face_indices_def)


lemma face_indices_bounded:
  assumes "\<forall>(i, j, midpoint, normal) \<in> set grp. i < n \<and> j < n"
  shows "face_indices grp \<subseteq> {..<n}"
  using assms by (auto simp: face_indices_def)

lemma card_face_indices_le:
  assumes "\<forall>(i, j, midpoint, normal) \<in> set grp. i < n \<and> j < n"
  shows "card (face_indices grp) \<le> n"
proof -
  have "card (face_indices grp) \<le> card {..<n}"
    by (rule card_mono) (simp_all add: face_indices_bounded [OF assms])
  then show ?thesis by simp
qed

lemma card_face_indices_pos:
  assumes "grp \<noteq> []"
  shows "0 < card (face_indices grp)"
proof -
  from assms obtain p ps where "grp = p # ps" by (cases grp) auto
  then have "face_indices grp \<noteq> {}"
    by (cases p) (auto simp: face_indices_def)
  with finite_face_indices [of grp] show ?thesis
    by (simp add: card_gt_0_iff)
qed

lemma collect_planes_props:
  assumes "collect_planes total_faces gs acc = Inr res" and "info \<in> set res"
  shows "info \<in> set acc \<or>
         (\<exists>g \<in> set gs. 2 \<le> length g \<and> total_faces \<noteq> 0 \<and> pairs info = g
            \<and> coverage info = real (card (unique_faces g)) / real total_faces
            \<and> face_count info = card (unique_faces g)
            \<and> average_plane g = Inr (plane info))"
  using assms
proof (induction gs arbitrary: acc)
  case Nil
  then show ?case by simp
next
  case (Cons g gs)
  show ?case
  proof (cases "length g < 2")
    case True
    with Cons.prems have "collect_planes total_faces gs acc = Inr res" by simp
    from Cons.IH [OF this Cons.prems(2)] show ?thesis by auto
  next
    case False
    with Cons.prems(1) obtain mp c where
      mp: "average_plane g = Inr mp" and c: "coverage_of g total_faces = Inr c"
      and rest: "collect_planes total_faces gs
                   (acc @ [\<lparr> plane = mp, coverage = c, pairs = g,
                             face_count = card (unique_faces g) \<rparr>]) = Inr res"
      by (auto split: sum.splits)
    from c have n0: "total_faces \<noteq> 0"
      and cv: "c = real (card (unique_faces g)) / real total_faces"
      by (auto simp: coverage_of_def split: if_splits)
    from Cons.IH [OF rest Cons.prems(2)] False mp n0 cv show ?thesis by auto
  qed
qed

text \<open>
  The three tiers of the significance policy.  For a non-empty list of face pairs and
  a positive face count, when the normals of the largest group do not sum to a null
  vector (the length of the sum is at least the machine epsilon),
  \<^verbatim>\<open>find_significant_mirror_plane\<close> returns, and its result follows the tiers: no
  plane below a coverage of 0.2, the averaged plane with the partial status from 0.2 and
  below 0.6, the averaged plane with the full status from 0.6.
\<close>

lemma significance_tiers:
  assumes "face_pairs \<noteq> []" and "0 < total_faces"
    and "epsilon \<le> Length (sum_normals (max_by_len (plane_groups_significant face_pairs)))"
  shows "\<exists>mirror_plane c.
           average_plane (max_by_len (plane_groups_significant face_pairs)) = Inr mirror_plane
         \<and> coverage_of (max_by_len (plane_groups_significant face_pairs)) total_faces = Inr c
         \<and> find_significant_mirror_plane face_pairs total_faces =
             Inr (if c < 0.2 then (None, ''No significant symmetry detected'')
                  else if c < 0.6 then (Some mirror_plane, ''Partial symmetry detected'')
                  else (Some mirror_plane, ''Full symmetry detected''))"
proof -
  let ?g = "max_by_len (plane_groups_significant face_pairs)"
  from assms(3) obtain mp where mp: "average_plane ?g = Inr mp"
    by (auto simp: average_plane_def normalize_vector_def)
  from assms(2) obtain c where c: "coverage_of ?g total_faces = Inr c"
    by (auto simp: coverage_of_def)
  from assms(1) mp c show ?thesis
    by (simp add: find_significant_mirror_plane_def)
qed

lemma ex_pairs_eval:
  "plane_groups_significant [(0, 1, Vector 0 0 0, Vector 1 0 0), (2, 3, Vector 0 2 0, Vector 1 0 0)]
     = [[(0, 1, Vector 0 0 0, Vector 1 0 0), (2, 3, Vector 0 2 0, Vector 1 0 0)]]"
  by (simp add: plane_groups_significant_def add_pair_significant_def dot_def)

lemma significance_tiers_example:
  "[(0, 1, Vector 0 0 0, Vector 1 0 0), (2, 3, Vector 0 2 0, Vector 1 0 0)] \<noteq> []
   \<and> (0::nat) < 4
   \<and> find_significant_mirror_plane
        [(0, 1, Vector 0 0 0, Vector 1 0 0), (2, 3, Vector 0 2 0, Vector 1 0 0)] 4
      = Inr (Some (Vector 0 1 0, Vector 1 0 0), ''Full symmetry detected'')"
proof -
  let ?fp = "[(0::nat, 1::nat, Vector 0 0 0, Vector 1 0 0), (2, 3, Vector 0 2 0, Vector 1 0 0)]"
  have h1: "?fp \<noteq> []" by simp
  have h2: "(0::nat) < 4" by simp
  have h3: "epsilon \<le> Length (sum_normals (max_by_len (plane_groups_significant ?fp)))"
    unfolding ex_pairs_eval by (simp add: sum_normals_def add_def Length_def epsilon_def)
  have av: "average_plane (max_by_len (plane_groups_significant ?fp)) = Inr (Vector 0 1 0, Vector 1 0 0)"
    unfolding ex_pairs_eval
    by (simp add: average_plane_def sum_normals_def sum_points_def add_def
        multiply_def normalize_vector_def Length_def epsilon_def)
  have cv: "coverage_of (max_by_len (plane_groups_significant ?fp)) 4 = Inr 1"
    unfolding ex_pairs_eval by (simp add: coverage_of_def unique_faces_def)
  from significance_tiers [OF h1 h2 h3] av cv h1 h2 show ?thesis
    by auto
qed

text \<open>
  Claim C10.  For every list of face pairs the grouping loop of
  \<^verbatim>\<open>find_significant_mirror_plane\<close> and the grouping loop of
  \<^verbatim>\<open>find_all_mirror_planes\<close> build the same list of groups: the same groups, in the
  same order, each with the same members in the same order.
\<close>

theorem clustering_variants_equivalent:
  "plane_groups_significant face_pairs = plane_groups_all face_pairs"
  by (rule plane_groups_significant_eq_all)

text \<open>
  Claim C8.  When \<^verbatim>\<open>find_all_mirror_planes\<close> returns, for pairs whose indices are below
  the total face count \<open>N > 0\<close>, every reported plane group has
  \<open>0 < coverage \<le> 1\<close>, and its \<^verbatim>\<open>face_count\<close> is the number of distinct face indices
  that occur in its pairs (and the coverage is that number divided by \<open>N\<close>).
\<close>

theorem coverage_bound:
  assumes "find_all_mirror_planes face_pairs total_faces = Inr (mirror_planes, status)"
    and "\<forall>(i, j, midpoint, normal) \<in> set face_pairs. i < total_faces \<and> j < total_faces"
    and "0 < total_faces"
    and "info \<in> set mirror_planes"
  shows "0 < coverage info \<and> coverage info \<le> 1
       \<and> face_count info = card (face_indices (pairs info))
       \<and> coverage info = real (face_count info) / real total_faces"
proof -
  from assms(1,4) have ne: "face_pairs \<noteq> []"
    by (auto simp: find_all_mirror_planes_def split: if_splits)
  with assms(1) obtain mps where
    mps: "collect_planes total_faces (plane_groups_all face_pairs) [] = Inr mps"
    and res: "mirror_planes = (if sort_key (\<lambda>x. - coverage x) mps = [] then []
                               else sort_key (\<lambda>x. - coverage x) mps)"
    by (auto simp: find_all_mirror_planes_def Let_def split: sum.splits if_splits)
  from res assms(4) have "info \<in> set (sort_key (\<lambda>x. - coverage x) mps)"
    by (auto split: if_splits)
  then have "info \<in> set mps" by simp
  from collect_planes_props [OF mps this] obtain g where
    g: "g \<in> set (plane_groups_all face_pairs)" and len: "2 \<le> length g"
    and p: "pairs info = g"
    and cv: "coverage info = real (card (unique_faces g)) / real total_faces"
    and fc: "face_count info = card (unique_faces g)"
    by auto
  from g have "set g \<subseteq> set (concat (plane_groups_all face_pairs))" by auto
  then have sub: "set g \<subseteq> set face_pairs"
    by (simp only: plane_groups_all_members)
  with assms(2) have bnd: "\<forall>(i, j, midpoint, normal) \<in> set g. i < total_faces \<and> j < total_faces"
    by blast
  from len have "g \<noteq> []" by auto
  then have pos: "0 < card (face_indices g)" by (rule card_face_indices_pos)
  have le: "card (face_indices g) \<le> total_faces" by (rule card_face_indices_le [OF bnd])
  from pos le assms(3) cv fc p show ?thesis
    by (simp add: unique_faces_eq)
qed

lemma ex_pairs_all_eval:
  "plane_groups_all [(0, 1, Vector 0 0 0, Vector 1 0 0), (2, 3, Vector 0 2 0, Vector 1 0 0)]
     = [[(0, 1, Vector 0 0 0, Vector 1 0 0), (2, 3, Vector 0 2 0, Vector 1 0 0)]]"
  by (simp add: plane_groups_all_def add_pair_all_def dot_def)

lemma ex_find_all_eval:
  "find_all_mirror_planes [(0, 1, Vector 0 0 0, Vector 1 0 0), (2, 3, Vector 0 2 0, Vector 1 0 0)] 4
     = Inr ([\<lparr> plane = (Vector 0 1 0, Vector 1 0 0), coverage = 1,
               pairs = [(0, 1, Vector 0 0 0, Vector 1 0 0), (2, 3, Vector 0 2 0, Vector 1 0 0)],
               face_count = 4 \<rparr>], ''Multiple symmetry planes detected'')"
  unfolding find_all_mirror_planes_def ex_pairs_all_eval
  by (simp add: average_plane_def sum_normals_def sum_points_def add_def
      multiply_def normalize_vector_def Length_def epsilon_def coverage_of_def unique_faces_def)

theorem coverage_bound_witness:
  "find_all_mirror_planes [(0, 1, Vector 0 0 0, Vector 1 0 0), (2, 3, Vector 0 2 0, Vector 1 0 0)] 4
     = Inr ([\<lparr> plane = (Vector 0 1 0, Vector 1 0 0), coverage = 1,
               pairs = [(0, 1, Vector 0 0 0, Vector 1 0 0), (2, 3, Vector 0 2 0, Vector 1 0 0)],
               face_count = 4 \<rparr>], ''Multiple symmetry planes detected'')
   \<and> (0::nat) < 4 \<and> (1::nat) < 4 \<and> (2::nat) < 4 \<and> (3::nat) < 4
   \<and> card (face_indices [(0, 1, Vector 0 0 0, Vector 1 0 0), (2, 3, Vector 0 2 0, Vector 1 0 0)]) = 4"
proof -
  let ?fp = "[(0::nat, 1::nat, Vector 0 0 0, Vector 1 0 0), (2, 3, Vector 0 2 0, Vector 1 0 0)]"
  let ?info = "\<lparr> plane = (Vector 0 1 0, Vector 1 0 0), coverage = 1, pairs = ?fp,
                 face_count = 4 \<rparr>"
  have h1: "find_all_mirror_planes ?fp 4 = Inr ([?info], ''Multiple symmetry planes detected'')"
    by (rule ex_find_all_eval)
  have h2: "\<forall>(i, j, midpoint, normal) \<in> set ?fp. i < 4 \<and> j < 4" by simp
  have h3: "(0::nat) < 4" by simp
  have h4: "?info \<in> set [?info]" by simp
  from coverage_bound [OF h1 h2 h3 h4] h1 h2 h3 show ?thesis by simp
qed

lemma average_plane_unit:
  assumes "average_plane grp = Inr (point, normal)"
  shows "Length normal = 1"
proof -
  from assms have "normalize_vector (sum_normals grp) = Inr normal"
    by (auto simp: average_plane_def split: sum.splits)
  then show ?thesis by (rule normalize_unit)
qed

text \<open>
  Claim C4.  Every representative plane that \<^verbatim>\<open>find_significant_mirror_plane\<close> or
  \<^verbatim>\<open>find_all_mirror_planes\<close> returns has a normal of length 1 (exactly, in real
  arithmetic): the normal is the result of a normalisation that did not raise.
\<close>

theorem representative_normal_unit:
  "(find_significant_mirror_plane face_pairs total_faces = Inr (Some (point, normal), status)
      \<longrightarrow> Length normal = 1)
   \<and> (find_all_mirror_planes face_pairs total_faces = Inr (mirror_planes, status')
      \<longrightarrow> (\<forall>info \<in> set mirror_planes. Length (snd (plane info)) = 1))"
proof (intro conjI impI ballI)
  assume r: "find_significant_mirror_plane face_pairs total_faces
      = Inr (Some (point, normal), status)"
  then have "average_plane (max_by_len (plane_groups_significant face_pairs)) = Inr (point, normal)"
    by (auto simp: find_significant_mirror_plane_def Let_def split: if_splits sum.splits)
  then show "Length normal = 1" by (rule average_plane_unit)
next
  fix info
  assume r: "find_all_mirror_planes face_pairs total_faces = Inr (mirror_planes, status')"
    and i: "info \<in> set mirror_planes"
  from r i have ne: "face_pairs \<noteq> []"
    by (auto simp: find_all_mirror_planes_def split: if_splits)
  with r obtain mps where
    mps: "collect_planes total_faces (plane_groups_all face_pairs) [] = Inr mps"
    and res: "mirror_planes = (if sort_key (\<lambda>x. - coverage x) mps = [] then []
                               else sort_key (\<lambda>x. - coverage x) mps)"
    by (auto simp: find_all_mirror_planes_def Let_def split: sum.splits if_splits)
  from res i have "info \<in> set (sort_key (\<lambda>x. - coverage x) mps)"
    by (auto split: if_splits)
  then have "info \<in> set mps" by simp
  from collect_planes_props [OF mps this] obtain g where
    "average_plane g = Inr (plane info)" by auto
  then have "average_plane g = Inr (fst (plane info), snd (plane info))" by simp
  then show "Length (snd (plane info)) = 1" by (rule average_plane_unit)
qed

theorem representative_normal_unit_witness:
  "find_significant_mirror_plane
      [(0, 1, Vector 0 0 0, Vector 1 0 0), (2, 3, Vector 0 2 0, Vector 1 0 0)] 4
     = Inr (Some (Vector 0 1 0, Vector 1 0 0), ''Full symmetry detected'')
   \<and> find_all_mirror_planes
      [(0, 1, Vector 0 0 0, Vector 1 0 0), (2, 3, Vector 0 2 0, Vector 1 0 0)] 4
     = Inr ([\<lparr> plane = (Vector 0 1 0, Vector 1 0 0), coverage = 1,
               pairs = [(0, 1, Vector 0 0 0, Vector 1 0 0), (2, 3, Vector 0 2 0, Vector 1 0 0)],
               face_count = 4 \<rparr>], ''Multiple symmetry planes detected'')
   \<and> Length (Vector 1 0 0) = 1"
proof -
  let ?fp = "[(0::nat, 1::nat, Vector 0 0 0, Vector 1 0 0), (2, 3, Vector 0 2 0, Vector 1 0 0)]"
  let ?info = "\<lparr> plane = (Vector 0 1 0, Vector 1 0 0), coverage = 1, pairs = ?fp,
                 face_count = 4 \<rparr>"
  have s: "find_significant_mirror_plane ?fp 4
      = Inr (Some (Vector 0 1 0, Vector 1 0 0), ''Full symmetry detected'')"
    using significance_tiers_example by blast
  have a: "find_all_mirror_planes ?fp 4 = Inr ([?info], ''Multiple symmetry planes detected'')"
    by (rule ex_find_all_eval)
  from representative_normal_unit
    [of ?fp 4 "Vector 0 1 0" "Vector 1 0 0" "''Full symmetry detected''" "[?info]"
        "''Multiple symmetry planes detected''"] s a
  show ?thesis by simp
qed

subsection \<open>The double product of line 116\<close>

lemma double_0_7_times_20: "double_0_7_times 20 = 14"
proof -
  have b1: "bit_length 20 = 5" by (simp add: bit_length.simps)
  have b2: "bit_length 126100789566373880 = 57" by (simp add: bit_length.simps)
  show ?thesis
    by (simp add: double_0_7_times_def round_to_53_bits_def b1 b2 Let_def)
qed

lemma double_0_7_times_10: "double_0_7_times 10 = 7"
proof -
  have b1: "bit_length 10 = 4" by (simp add: bit_length.simps)
  have b2: "bit_length 63050394783186940 = 56" by (simp add: bit_length.simps)
  show ?thesis
    by (simp add: double_0_7_times_def round_to_53_bits_def b1 b2 Let_def)
qed

lemma double_0_7_times_90: "double_0_7_times 90 = 8866461766385663 / 2 ^ 47"
proof -
  have b1: "bit_length 90 = 7" by (simp add: bit_length.simps)
  have b2: "bit_length 567453553048682460 = 59" by (simp add: bit_length.simps)
  show ?thesis
    by (simp add: double_0_7_times_def round_to_53_bits_def b1 b2 Let_def)
qed

lemma double_0_7_times_90_below_63: "double_0_7_times 90 < 63"
  by (simp add: double_0_7_times_90)

lemma bit_length_less: "m < 2 ^ k \<Longrightarrow> bit_length m \<le> k"
proof (induction k arbitrary: m)
  case 0
  then show ?case by (simp add: bit_length.simps)
next
  case (Suc k)
  show ?case
  proof (cases "m = 0")
    case True
    then show ?thesis by (simp add: bit_length.simps)
  next
    case False
    from Suc.prems have "m div 2 < 2 ^ k" by auto
    then have "bit_length (m div 2) \<le> k" by (rule Suc.IH)
    with False show ?thesis by (subst bit_length.simps) simp
  qed
qed

lemma round_to_53_bits_small: "m < 2 ^ 53 \<Longrightarrow> round_to_53_bits m = m"
  by (simp add: round_to_53_bits_def bit_length_less)

lemma round_to_53_bits_error:
  assumes "bit_length m \<le> 53 + s"
  shows "\<bar>real (round_to_53_bits m) - real m\<bar> \<le> 2 ^ s / 2"
proof (cases "bit_length m \<le> 53")
  case True
  then show ?thesis by (simp add: round_to_53_bits_def)
next
  case False
  define t where "t = bit_length m - 53"
  define q where "q = m div 2 ^ t"
  define r where "r = m mod 2 ^ t"
  from False assms have ts: "t \<le> s" and tpos: "0 < t" by (simp_all add: t_def)
  have m: "m = q * 2 ^ t + r" unfolding q_def r_def by (rule div_mult_mod_eq [symmetric])
  have r: "r < 2 ^ t" by (simp add: r_def)
  have pw: "(2::real) ^ t \<le> 2 ^ s" using ts by simp
  have rnd: "round_to_53_bits m =
      (if 2 * r > 2 ^ t \<or> (2 * r = 2 ^ t \<and> odd q) then q + 1 else q) * 2 ^ t"
    using False by (simp add: round_to_53_bits_def Let_def t_def q_def r_def)
  show ?thesis
  proof (cases "2 * r > 2 ^ t \<or> (2 * r = 2 ^ t \<and> odd q)")
    case True
    then have up: "2 ^ t \<le> 2 * r" by auto
    from True rnd have "real (round_to_53_bits m) - real m = 2 ^ t - real r"
      by (simp add: m algebra_simps)
    moreover from up have "(2::real) ^ t \<le> 2 * real r"
      by (metis of_nat_le_iff of_nat_mult of_nat_numeral of_nat_power)
    moreover from r have "real r < 2 ^ t"
      by (metis of_nat_less_iff of_nat_numeral of_nat_power)
    ultimately show ?thesis using pw by linarith
  next
    case down: False
    then have dn: "2 * r \<le> 2 ^ t" by auto
    from down rnd have "real (round_to_53_bits m) - real m = - real r"
      by (simp add: m algebra_simps)
    moreover from dn have "2 * real r \<le> (2::real) ^ t"
      by (metis of_nat_le_iff of_nat_mult of_nat_numeral of_nat_power)
    moreover have "0 \<le> real r" by simp
    ultimately show ?thesis using pw by linarith
  qed
qed

lemma double_0_7_times_near:
  assumes "n < 2 ^ 48"
  shows "\<bar>double_0_7_times (int n) - 7 / 10 * real n\<bar> < 1 / 10"
proof -
  let ?c = "6305039478318694 :: nat"
  have small: "round_to_53_bits n = n"
    using assms by (intro round_to_53_bits_small) (rule less_trans, assumption, simp)
  have "?c * n < 2 ^ 53 * 2 ^ 48"
    using assms by (intro mult_strict_mono) simp_all
  then have "?c * n < 2 ^ 101" by simp
  then have "bit_length (?c * n) \<le> 53 + 48" using bit_length_less [of "?c * n" 101] by simp
  then have err: "\<bar>real (round_to_53_bits (?c * n)) - real (?c * n)\<bar> \<le> 2 ^ 48 / 2"
    by (rule round_to_53_bits_error)
  have val: "double_0_7_times (int n) = real (round_to_53_bits (?c * n)) / 2 ^ 53"
    by (simp add: double_0_7_times_def small)
  have gap: "7 / 10 * real n - real (?c * n) / 2 ^ 53 = 4 / 10 * real n / 2 ^ 53"
    by simp
  from assms have nb: "real n < 2 ^ 48"
    by (metis of_nat_less_iff of_nat_numeral of_nat_power)
  define a where "a = real (round_to_53_bits (?c * n))"
  define b where "b = real (?c * n)"
  have eq: "double_0_7_times (int n) - 7 / 10 * real n = (a - b) / 2 ^ 53 - 4 / 10 * real n / 2 ^ 53"
    unfolding val a_def b_def by (simp add: field_simps)
  have "\<bar>a - b\<bar> / 2 ^ 53 \<le> (2 ^ 48 / 2) / 2 ^ 53"
    using err unfolding a_def b_def by (intro divide_right_mono) simp_all
  then have e1: "\<bar>(a - b) / 2 ^ 53\<bar> \<le> 1 / 64" by simp
  have e2: "0 \<le> 4 / 10 * real n / 2 ^ 53" by simp
  have "4 / 10 * real n / 2 ^ 53 < 4 / 10 * 2 ^ 48 / 2 ^ 53"
    using nb by (intro divide_strict_right_mono mult_strict_left_mono) simp_all
  then have e3: "4 / 10 * real n / 2 ^ 53 < 1 / 80" by simp
  from e1 e2 e3 show ?thesis unfolding eq by linarith
qed

lemma double_0_7_times_exceeded:
  assumes "n < 2 ^ 48" and "7 * n < 10 * k"
  shows "double_0_7_times (int n) < real k"
proof -
  from assms(2) have "7 * n + 1 \<le> 10 * k" by simp
  then have "real (7 * n + 1) \<le> real (10 * k)" by (simp only: of_nat_le_iff)
  then have "7 / 10 * real n + 1 / 10 \<le> real k" by simp
  with double_0_7_times_near [OF assms(1)] show ?thesis by linarith
qed

lemma double_0_7_times_not_exceeded:
  assumes "n < 2 ^ 48" and "10 * k < 7 * n"
  shows "\<not> double_0_7_times (int n) < real k"
proof -
  from assms(2) have "10 * k + 1 \<le> 7 * n" by simp
  then have "real (10 * k + 1) \<le> real (7 * n)" by (simp only: of_nat_le_iff)
  then have "real k + 1 / 10 \<le> 7 / 10 * real n" by simp
  with double_0_7_times_near [OF assms(1)] show ?thesis by linarith
qed

subsection \<open>The coincidence test and the pairwise scan\<close>

lemma match_count_foldl:
  "foldl (\<lambda>count point.
        case distToShape K face2 point of
          None \<Rightarrow> count
        | Some distance \<Rightarrow> if distance < tolerance then count + 1 else count)
       c points = c + length (filter (matched K face2 tolerance) points)"
  by (induction points arbitrary: c) (auto simp: matched_def split: option.splits)

lemma match_count_eq:
  "match_count K face2 tolerance points = length (filter (matched K face2 tolerance) points)"
  by (simp add: match_count_def match_count_foldl)

lemma check_faces_coincident_matched:
  "check_faces_coincident K face1 face2 tolerance \<longleftrightarrow>
     \<bar>DiagonalLength K face1 - DiagonalLength K face2\<bar> \<le> tolerance
     \<and> points_to_check K face1 \<noteq> []
     \<and> real (length (filter (matched K face2 tolerance) (points_to_check K face1)))
          > double_0_7_times (int (length (points_to_check K face1)))"
  by (simp add: check_faces_coincident_def match_count_eq not_less)

text \<open>
  Claim C5, as amended.  \<^verbatim>\<open>check_faces_coincident\<close> answers true exactly when the
  bounding-box diagonals differ by at most the tolerance, the sample set is not empty,
  and the number of samples whose distance query answers with a distance below the
  tolerance exceeds the double-precision product \<^verbatim>\<open>0.7 * len(points_to_check)\<close> of
  line 116.  A sample whose distance query raises stays in the total and is not counted
  as matched.
\<close>

theorem check_faces_coincident_iff:
  "check_faces_coincident K face1 face2 tolerance \<longleftrightarrow>
     \<bar>DiagonalLength K face1 - DiagonalLength K face2\<bar> \<le> tolerance
     \<and> points_to_check K face1 \<noteq> []
     \<and> real (length (filter (matched K face2 tolerance) (points_to_check K face1)))
          > double_0_7_times (int (length (points_to_check K face1)))"
  by (rule check_faces_coincident_matched)

text \<open>
  What the double product means for the counts, for fewer than \<open>2^48\<close> samples: more
  than seven tenths matched is coincident, fewer is not.  With exactly seven tenths
  matched the rounding of the product decides: 7 of 10 and 14 of 20 are not
  coincident, 63 of 90 are.
\<close>

lemma check_faces_coincident_seven_tenths:
  assumes "\<bar>DiagonalLength K face1 - DiagonalLength K face2\<bar> \<le> tolerance"
    and "length (points_to_check K face1) < 2 ^ 48"
  shows "7 * length (points_to_check K face1)
           < 10 * length (filter (matched K face2 tolerance) (points_to_check K face1))
         \<Longrightarrow> check_faces_coincident K face1 face2 tolerance"
    and "10 * length (filter (matched K face2 tolerance) (points_to_check K face1))
           < 7 * length (points_to_check K face1)
         \<Longrightarrow> \<not> check_faces_coincident K face1 face2 tolerance"
proof -
  let ?n = "length (points_to_check K face1)"
  let ?k = "length (filter (matched K face2 tolerance) (points_to_check K face1))"
  assume more: "7 * ?n < 10 * ?k"
  then have "points_to_check K face1 \<noteq> []" by auto
  with assms(1) double_0_7_times_exceeded [OF assms(2) more]
  show "check_faces_coincident K face1 face2 tolerance"
    by (simp add: check_faces_coincident_matched)
next
  let ?n = "length (points_to_check K face1)"
  let ?k = "length (filter (matched K face2 tolerance) (points_to_check K face1))"
  assume less: "10 * ?k < 7 * ?n"
  from double_0_7_times_not_exceeded [OF assms(2) less]
  show "\<not> check_faces_coincident K face1 face2 tolerance"
    by (simp add: check_faces_coincident_matched)
qed

lemma check_faces_coincident_63_of_90:
  assumes "\<bar>DiagonalLength K face1 - DiagonalLength K face2\<bar> \<le> tolerance"
    and "length (points_to_check K face1) = 90"
    and "length (filter (matched K face2 tolerance) (points_to_check K face1)) = 63"
  shows "check_faces_coincident K face1 face2 tolerance"
proof -
  from assms(2) have "points_to_check K face1 \<noteq> []" by auto
  with assms show ?thesis
    by (simp add: check_faces_coincident_matched double_0_7_times_90)
qed

lemma for_each_gather:
  assumes "\<And>x acc. x \<in> set xs \<Longrightarrow>
             body x acc = (case g x of Inl e \<Rightarrow> Inl e | Inr ps \<Rightarrow> Inr (acc @ ps))"
  shows "for_each xs body acc = (case gather xs g of Inl e \<Rightarrow> Inl e | Inr ps \<Rightarrow> Inr (acc @ ps))"
  using assms
proof (induction xs arbitrary: acc)
  case Nil
  then show ?case by simp
next
  case (Cons x xs)
  have step: "body x acc = (case g x of Inl e \<Rightarrow> Inl e | Inr ps \<Rightarrow> Inr (acc @ ps))"
    by (rule Cons.prems) simp
  have rest: "\<And>acc'. for_each xs body acc' =
      (case gather xs g of Inl e \<Rightarrow> Inl e | Inr ps \<Rightarrow> Inr (acc' @ ps))"
    by (rule Cons.IH) (simp add: Cons.prems)
  show ?case
    by (simp add: step rest split: sum.splits)
qed

lemma try_pair_emitted:
  "try_pair K tolerance faces i j acc =
     (case emitted K tolerance faces i j of Inl e \<Rightarrow> Inl e | Inr ps \<Rightarrow> Inr (acc @ ps))"
  by (simp add: try_pair_def emitted_def pair_result_def Let_def
      split: sum.splits option.splits prod.splits)

lemma find_symmetric_face_pairs_gather:
  "find_symmetric_face_pairs K faces tolerance =
     gather [0..<length faces] (\<lambda>i. gather [i + 1..<length faces] (emitted K tolerance faces i))"
proof -
  have inner: "\<And>i acc. for_each [i + 1..<length faces] (try_pair K tolerance faces i) acc =
      (case gather [i + 1..<length faces] (emitted K tolerance faces i) of
         Inl e \<Rightarrow> Inl e | Inr ps \<Rightarrow> Inr (acc @ ps))"
    by (rule for_each_gather) (rule try_pair_emitted)
  have "for_each [0..<length faces]
          (\<lambda>i. for_each [i + 1..<length faces] (try_pair K tolerance faces i)) [] =
        (case gather [0..<length faces]
                (\<lambda>i. gather [i + 1..<length faces] (emitted K tolerance faces i)) of
           Inl e \<Rightarrow> Inl e | Inr ps \<Rightarrow> Inr ([] @ ps))"
    by (rule for_each_gather) (rule inner)
  then show ?thesis
    by (simp add: find_symmetric_face_pairs_def split: sum.splits)
qed

lemma gather_Inr_iff:
  "gather xs g = Inr ps \<longleftrightarrow>
     (\<forall>x \<in> set xs. \<not> isl (g x)) \<and> ps = concat (map (\<lambda>x. projr (g x)) xs)"
proof (induction xs arbitrary: ps)
  case Nil
  show ?case by auto
next
  case (Cons x xs)
  show ?case
  proof (cases "g x")
    case (Inl e)
    then show ?thesis by simp
  next
    case gx: (Inr qs)
    show ?thesis
    proof (cases "gather xs g")
      case (Inl e)
      with Cons.IH [of "concat (map (\<lambda>x. projr (g x)) xs)"] gx show ?thesis by auto
    next
      case (Inr rs)
      with Cons.IH [of rs] gx show ?thesis by auto
    qed
  qed
qed

lemma gather_Inl_iff:
  "(\<exists>e. gather xs g = Inl e) \<longleftrightarrow> (\<exists>x \<in> set xs. isl (g x))"
  by (induction xs) (auto split: sum.splits)

lemma gather_Inl_error:
  assumes "gather xs g = Inl e"
  shows "\<exists>x \<in> set xs. g x = Inl e"
  using assms by (induction xs) (auto split: sum.splits)

lemma pair_result_Some_iff:
  "pair_result K tolerance face_a face_b = Inr (Some (midpoint, normal)) \<longleftrightarrow>
     \<bar>Area K face_a - Area K face_b\<bar> \<le> tolerance
   \<and> \<bar>perimeter K face_a - perimeter K face_b\<bar> \<le> tolerance
   \<and> \<not> Length (sub (CenterOfMass K face_b) (CenterOfMass K face_a)) < tolerance
   \<and> normalize_vector (sub (CenterOfMass K face_b) (CenterOfMass K face_a)) = Inr normal
   \<and> midpoint = midpoint_of (CenterOfMass K face_a) (CenterOfMass K face_b)
   \<and> check_faces_coincident K
        (transformGeometry K face_a (mirror_transform normal midpoint)) face_b tolerance"
  by (auto simp: pair_result_def mirror_hypothesis_def midpoint_of_def Let_def
      split: sum.splits option.splits if_splits)

lemma pair_result_Inl_iff:
  "isl (pair_result K tolerance face_a face_b) \<longleftrightarrow>
     \<bar>Area K face_a - Area K face_b\<bar> \<le> tolerance
   \<and> \<bar>perimeter K face_a - perimeter K face_b\<bar> \<le> tolerance
   \<and> \<not> Length (sub (CenterOfMass K face_b) (CenterOfMass K face_a)) < tolerance
   \<and> Length (sub (CenterOfMass K face_b) (CenterOfMass K face_a)) < epsilon"
  by (auto simp: pair_result_def mirror_hypothesis_def Let_def normalize_vector_def
      split: sum.splits option.splits if_splits)

lemma emitted_member_iff:
  assumes "\<not> isl (emitted K tolerance faces i j)"
  shows "p \<in> set (projr (emitted K tolerance faces i j)) \<longleftrightarrow>
     (\<exists>midpoint normal. p = (i, j, midpoint, normal)
        \<and> pair_result K tolerance (faces ! i) (faces ! j) = Inr (Some (midpoint, normal)))"
  using assms by (auto simp: emitted_def split: sum.splits option.splits)

lemma emitted_isl: "isl (emitted K tolerance faces i j) = isl (pair_result K tolerance (faces ! i) (faces ! j))"
  by (auto simp: emitted_def split: sum.splits option.splits)

lemma gather_not_isl_iff:
  "\<not> isl (gather xs g) \<longleftrightarrow> (\<forall>x \<in> set xs. \<not> isl (g x))"
proof (cases "gather xs g")
  case (Inl e)
  then have "\<exists>e. gather xs g = Inl e" by blast
  then have "\<exists>x \<in> set xs. isl (g x)" by (simp only: gather_Inl_iff)
  with Inl show ?thesis by auto
next
  case (Inr ps)
  then have "\<forall>x \<in> set xs. \<not> isl (g x)" by (simp add: gather_Inr_iff)
  with Inr show ?thesis by simp
qed

lemma gather_projr:
  assumes "\<not> isl (gather xs g)"
  shows "projr (gather xs g) = concat (map (\<lambda>x. projr (g x)) xs)"
proof -
  from assms obtain ps where ps: "gather xs g = Inr ps" by (cases "gather xs g") auto
  then have "ps = concat (map (\<lambda>x. projr (g x)) xs)" by (simp add: gather_Inr_iff)
  with ps show ?thesis by simp
qed

lemma find_not_isl_iff:
  "\<not> isl (find_symmetric_face_pairs K faces tolerance) \<longleftrightarrow>
     (\<forall>i j. i < j \<and> j < length faces \<longrightarrow> \<not> isl (pair_result K tolerance (faces ! i) (faces ! j)))"
proof -
  have "\<not> isl (find_symmetric_face_pairs K faces tolerance) \<longleftrightarrow>
        (\<forall>i \<in> set [0..<length faces]. \<forall>j \<in> set [i + 1..<length faces].
            \<not> isl (emitted K tolerance faces i j))"
    by (simp only: find_symmetric_face_pairs_gather gather_not_isl_iff)
  also have "\<dots> \<longleftrightarrow> (\<forall>i j. i < j \<and> j < length faces \<longrightarrow>
        \<not> isl (pair_result K tolerance (faces ! i) (faces ! j)))"
    by (auto simp: emitted_isl)
  finally show ?thesis .
qed

lemma find_member_iff:
  assumes "find_symmetric_face_pairs K faces tolerance = Inr ps"
  shows "(i, j, midpoint, normal) \<in> set ps \<longleftrightarrow>
     i < j \<and> j < length faces
     \<and> pair_result K tolerance (faces ! i) (faces ! j) = Inr (Some (midpoint, normal))"
proof -
  let ?row = "\<lambda>i. gather [i + 1..<length faces] (emitted K tolerance faces i)"
  from assms have "\<not> isl (gather [0..<length faces] ?row)"
    by (simp add: find_symmetric_face_pairs_gather)
  then have rows: "\<forall>i \<in> set [0..<length faces]. \<not> isl (?row i)"
    by (simp only: gather_not_isl_iff)
  from assms have ps: "ps = concat (map (\<lambda>i. projr (?row i)) [0..<length faces])"
    by (simp add: find_symmetric_face_pairs_gather gather_Inr_iff)
  have ok: "\<not> isl (emitted K tolerance faces i' j')" if "i' < j'" "j' < length faces" for i' j'
  proof -
    from that have "i' \<in> set [0..<length faces]" by simp
    with rows have "\<not> isl (?row i')" by blast
    then have "\<forall>j \<in> set [i' + 1..<length faces]. \<not> isl (emitted K tolerance faces i' j)"
      by (simp only: gather_not_isl_iff)
    with that show ?thesis by simp
  qed
  have row: "projr (?row i') =
      concat (map (\<lambda>j. projr (emitted K tolerance faces i' j)) [i' + 1..<length faces])"
    if "i' < length faces" for i'
  proof -
    from that rows have "\<not> isl (?row i')" by simp
    then show ?thesis by (rule gather_projr)
  qed
  have "(i, j, midpoint, normal) \<in> set ps \<longleftrightarrow>
      (\<exists>i' j'. i' < j' \<and> j' < length faces
         \<and> (i, j, midpoint, normal) \<in> set (projr (emitted K tolerance faces i' j')))"
  proof
    assume "(i, j, midpoint, normal) \<in> set ps"
    then obtain i' where i': "i' < length faces"
      and "(i, j, midpoint, normal) \<in> set (projr (?row i'))"
      by (auto simp: ps)
    with row [OF i'] obtain j' where "i' < j'" "j' < length faces"
      "(i, j, midpoint, normal) \<in> set (projr (emitted K tolerance faces i' j'))"
      by (auto simp: Suc_le_eq)
    then show "\<exists>i' j'. i' < j' \<and> j' < length faces
         \<and> (i, j, midpoint, normal) \<in> set (projr (emitted K tolerance faces i' j'))"
      by blast
  next
    assume "\<exists>i' j'. i' < j' \<and> j' < length faces
         \<and> (i, j, midpoint, normal) \<in> set (projr (emitted K tolerance faces i' j'))"
    then obtain i' j' where ij: "i' < j'" "j' < length faces"
      and mem: "(i, j, midpoint, normal) \<in> set (projr (emitted K tolerance faces i' j'))"
      by blast
    from ij have i': "i' < length faces" by simp
    from ij mem have "(i, j, midpoint, normal) \<in> set (projr (?row i'))"
      by (simp only: row [OF i']) (auto simp: Suc_le_eq)
    with i' show "(i, j, midpoint, normal) \<in> set ps"
      by (auto simp: ps)
  qed
  also have "\<dots> \<longleftrightarrow> i < j \<and> j < length faces
     \<and> pair_result K tolerance (faces ! i) (faces ! j) = Inr (Some (midpoint, normal))"
  proof
    assume "\<exists>i' j'. i' < j' \<and> j' < length faces
         \<and> (i, j, midpoint, normal) \<in> set (projr (emitted K tolerance faces i' j'))"
    then obtain i' j' where ij: "i' < j'" "j' < length faces"
      and mem: "(i, j, midpoint, normal) \<in> set (projr (emitted K tolerance faces i' j'))"
      by blast
    from mem emitted_member_iff [OF ok [OF ij]] ij
    show "i < j \<and> j < length faces
     \<and> pair_result K tolerance (faces ! i) (faces ! j) = Inr (Some (midpoint, normal))"
      by auto
  next
    assume a: "i < j \<and> j < length faces
     \<and> pair_result K tolerance (faces ! i) (faces ! j) = Inr (Some (midpoint, normal))"
    then have "\<not> isl (emitted K tolerance faces i j)" using ok by blast
    from emitted_member_iff [OF this, of "(i, j, midpoint, normal)"] a
    have "(i, j, midpoint, normal) \<in> set (projr (emitted K tolerance faces i j))" by simp
    with a show "\<exists>i' j'. i' < j' \<and> j' < length faces
         \<and> (i, j, midpoint, normal) \<in> set (projr (emitted K tolerance faces i' j'))"
      by blast
  qed
  finally show ?thesis .
qed


lemmas rect_defs = rect_kernel_def rect_center_def rect_corners_def rect_edges_def
     rect_diagonal_def rect_transform_def rect_distance_def extent_def line_edge_def
lemmas vec_defs = add_def multiply_def sub_def dot_def Length_def normalize_vector_def epsilon_def
     mirror_transform_def unity_def multVec_def
lemmas matcher_defs = find_symmetric_face_pairs_def try_pair_def mirror_hypothesis_def perimeter_def
     check_faces_coincident_def points_to_check_def edge_samples_def samples_per_edge_def match_count_def
     double_0_7_times_20

lemma normalize_vector_Inr:
  assumes "normalize_vector d = Inr n"
  shows "n = multiply d (1 / Length d)" and "Length n = 1" and "epsilon \<le> Length d"
proof -
  from assms show "n = multiply d (1 / Length d)" and "epsilon \<le> Length d"
    by (auto simp: normalize_vector_def multiply_def split: if_splits)
  from assms show "Length n = 1" by (rule normalize_unit)
qed

text \<open>
  Claim C6.  When \<^verbatim>\<open>find_symmetric_face_pairs\<close> returns, every pair
  \<open>(i, j, midpoint, normal)\<close> of its list has \<open>i < j\<close> (so \<open>i \<noteq> j\<close>), both below the
  number of faces; the midpoint is the componentwise average of the two centres of
  mass; the normal is the vector from the centre of face \<open>i\<close> to the centre of face
  \<open>j\<close> divided by its length, and has length 1; and the distance of the two centres is
  not below the tolerance, so a pair with closer centres is never stored.
\<close>

theorem face_pair_invariant:
  assumes "find_symmetric_face_pairs K shape tolerance = Inr face_pairs"
    and "(i, j, midpoint, normal) \<in> set face_pairs"
  shows "i < j \<and> i \<noteq> j \<and> j < length shape
       \<and> midpoint = midpoint_of (CenterOfMass K (shape ! i)) (CenterOfMass K (shape ! j))
       \<and> normal = multiply (sub (CenterOfMass K (shape ! j)) (CenterOfMass K (shape ! i)))
                    (1 / Length (sub (CenterOfMass K (shape ! j)) (CenterOfMass K (shape ! i))))
       \<and> Length normal = 1
       \<and> \<not> Length (sub (CenterOfMass K (shape ! j)) (CenterOfMass K (shape ! i))) < tolerance"
proof -
  let ?d = "sub (CenterOfMass K (shape ! j)) (CenterOfMass K (shape ! i))"
  from assms have ij: "i < j" "j < length shape"
    and res: "pair_result K tolerance (shape ! i) (shape ! j) = Inr (Some (midpoint, normal))"
    by (simp_all add: find_member_iff)
  from res have far: "\<not> Length ?d < tolerance"
    and n: "normalize_vector ?d = Inr normal"
    and m: "midpoint = midpoint_of (CenterOfMass K (shape ! i)) (CenterOfMass K (shape ! j))"
    by (simp_all add: pair_result_Some_iff)
  from ij far m normalize_vector_Inr(1,2) [OF n] show ?thesis by simp
qed

lemma squares_half:
  "find_symmetric_face_pairs rect_kernel [square_at 0, square_at 1] (1 / 2)
     = Inr [(0, 1, Vector (1 / 2) (1 / 2) (1 / 2), Vector 0 0 1)]"
  by (simp add: matcher_defs rect_defs square_at_def vec_defs upt_rec)

lemma squares_quarter:
  "find_symmetric_face_pairs rect_kernel [square_at 0, square_at 1] (1 / 4)
     = Inr [(0, 1, Vector (1 / 2) (1 / 2) (1 / 2), Vector 0 0 1)]"
  by (simp add: matcher_defs rect_defs square_at_def vec_defs upt_rec)

lemma squares_two:
  "find_symmetric_face_pairs rect_kernel [square_at 0, square_at 1] 2 = Inr []"
  by (simp add: matcher_defs rect_defs square_at_def vec_defs upt_rec)

theorem face_pair_invariant_witness:
  "find_symmetric_face_pairs rect_kernel [square_at 0, square_at 1] (1 / 2)
     = Inr [(0, 1, Vector (1 / 2) (1 / 2) (1 / 2), Vector 0 0 1)]
   \<and> Vector (1 / 2) (1 / 2) (1 / 2)
       = midpoint_of (CenterOfMass rect_kernel (square_at 0)) (CenterOfMass rect_kernel (square_at 1))
   \<and> Length (Vector 0 0 1) = 1
   \<and> \<not> Length (sub (CenterOfMass rect_kernel (square_at 1)) (CenterOfMass rect_kernel (square_at 0)))
         < 1 / 2"
proof -
  let ?p = "(0::nat, 1::nat, Vector (1 / 2) (1 / 2) (1 / 2), Vector 0 0 1)"
  have h1: "find_symmetric_face_pairs rect_kernel [square_at 0, square_at 1] (1 / 2) = Inr [?p]"
    by (rule squares_half)
  have h2: "?p \<in> set [?p]" by simp
  have e0: "[square_at 0, square_at 1] ! 0 = square_at 0" by simp
  have e1: "[square_at 0, square_at 1] ! 1 = square_at 1" by simp
  from face_pair_invariant [OF h1 h2] h1 show ?thesis
    unfolding e0 e1 by blast
qed

text \<open>
  Claim C5 as stated fails where the bounding-box test of line 82 rejects: all twenty
  samples of the 3 by 4 rectangle lie in the 6 by 8 rectangle, at distance 0, so the
  sample set is not empty and the matched count exceeds 0.7 times the total (as an
  exact product and as the double product), but the diagonals are 5 and 10 and the
  function answers false for the tolerance 1.
\<close>

theorem check_faces_coincident_bounding_box_counterexample:
  "points_to_check rect_kernel small_rect \<noteq> []
   \<and> real (length (filter (matched rect_kernel large_rect 1) (points_to_check rect_kernel small_rect)))
        > 0.7 * real (length (points_to_check rect_kernel small_rect))
   \<and> real (length (filter (matched rect_kernel large_rect 1) (points_to_check rect_kernel small_rect)))
        > double_0_7_times (int (length (points_to_check rect_kernel small_rect)))
   \<and> \<not> check_faces_coincident rect_kernel small_rect large_rect 1"
  by (simp add: matcher_defs matched_def rect_defs small_rect_def large_rect_def vec_defs upt_rec)

subsection \<open>The tolerance\<close>

lemma filter_length_mono:
  assumes "\<And>x. x \<in> set xs \<Longrightarrow> P x \<Longrightarrow> Q x"
  shows "length (filter P xs) \<le> length (filter Q xs)"
  using assms by (induction xs) auto

lemma matched_mono:
  assumes "matched K face2 t1 point" and "t1 \<le> t2"
  shows "matched K face2 t2 point"
  using assms by (auto simp: matched_def split: option.splits)

lemma check_faces_coincident_mono:
  assumes "check_faces_coincident K face1 face2 t1" and "t1 \<le> t2"
  shows "check_faces_coincident K face1 face2 t2"
proof -
  let ?pts = "points_to_check K face1"
  from assms(1) have bb: "\<bar>DiagonalLength K face1 - DiagonalLength K face2\<bar> \<le> t1"
    and ne: "?pts \<noteq> []"
    and cnt: "real (length (filter (matched K face2 t1) ?pts))
        > double_0_7_times (int (length ?pts))"
    by (simp_all add: check_faces_coincident_matched)
  have "length (filter (matched K face2 t1) ?pts) \<le> length (filter (matched K face2 t2) ?pts)"
    by (rule filter_length_mono) (rule matched_mono [OF _ assms(2)])
  then have "real (length (filter (matched K face2 t1) ?pts))
      \<le> real (length (filter (matched K face2 t2) ?pts))"
    by (simp only: of_nat_le_iff)
  with cnt have "real (length (filter (matched K face2 t2) ?pts))
      > double_0_7_times (int (length ?pts))"
    by linarith
  with bb ne assms(2) show ?thesis
    by (simp add: check_faces_coincident_matched)
qed

lemma pair_result_mono:
  assumes "pair_result K t1 face_a face_b = Inr (Some (midpoint, normal))"
    and "t1 \<le> t2"
    and "\<not> Length (sub (CenterOfMass K face_b) (CenterOfMass K face_a)) < t2"
  shows "pair_result K t2 face_a face_b = Inr (Some (midpoint, normal))"
proof -
  from assms(1) have
    a: "\<bar>Area K face_a - Area K face_b\<bar> \<le> t1"
    and p: "\<bar>perimeter K face_a - perimeter K face_b\<bar> \<le> t1"
    and n: "normalize_vector (sub (CenterOfMass K face_b) (CenterOfMass K face_a)) = Inr normal"
    and m: "midpoint = midpoint_of (CenterOfMass K face_a) (CenterOfMass K face_b)"
    and c: "check_faces_coincident K
        (transformGeometry K face_a (mirror_transform normal midpoint)) face_b t1"
    unfolding pair_result_Some_iff by blast+
  from c assms(2) have "check_faces_coincident K
        (transformGeometry K face_a (mirror_transform normal midpoint)) face_b t2"
    by (rule check_faces_coincident_mono)
  with a p n m assms(2,3) show ?thesis
    unfolding pair_result_Some_iff by force
qed

lemma concat_length_mono:
  assumes "\<And>x. x \<in> set xs \<Longrightarrow> length (f x) \<le> length (g x)"
  shows "length (concat (map f xs)) \<le> length (concat (map g xs))"
  using assms by (induction xs) (auto intro: add_mono)

lemma find_projr:
  assumes "find_symmetric_face_pairs K faces tolerance = Inr ps"
  shows "ps = concat (map (\<lambda>i. concat (map (\<lambda>j. projr (emitted K tolerance faces i j))
                                          [i + 1..<length faces])) [0..<length faces])"
    and "\<And>i j. i < j \<Longrightarrow> j < length faces \<Longrightarrow> \<not> isl (emitted K tolerance faces i j)"
proof -
  let ?row = "\<lambda>i. gather [i + 1..<length faces] (emitted K tolerance faces i)"
  from assms have "\<not> isl (gather [0..<length faces] ?row)"
    by (simp add: find_symmetric_face_pairs_gather)
  then have rows: "\<forall>i \<in> set [0..<length faces]. \<not> isl (?row i)"
    by (simp only: gather_not_isl_iff)
  from assms have "ps = concat (map (\<lambda>i. projr (?row i)) [0..<length faces])"
    by (simp add: find_symmetric_face_pairs_gather gather_Inr_iff)
  also have "map (\<lambda>i. projr (?row i)) [0..<length faces] =
      map (\<lambda>i. concat (map (\<lambda>j. projr (emitted K tolerance faces i j))
                           [i + 1..<length faces])) [0..<length faces]"
    using rows by (intro map_cong refl gather_projr) simp
  finally show "ps = concat (map (\<lambda>i. concat (map (\<lambda>j. projr (emitted K tolerance faces i j))
                                          [i + 1..<length faces])) [0..<length faces])" .
  fix i j assume "i < j" "j < length faces"
  then have "i \<in> set [0..<length faces]" by simp
  with rows have "\<not> isl (?row i)" by blast
  then have "\<forall>j \<in> set [i + 1..<length faces]. \<not> isl (emitted K tolerance faces i j)"
    by (simp only: gather_not_isl_iff)
  with \<open>i < j\<close> \<open>j < length faces\<close> show "\<not> isl (emitted K tolerance faces i j)" by simp
qed

text \<open>
  Claim C3, as amended.  For tolerances \<open>t1 \<le> t2\<close> on the same shape, when both calls
  return and no pair found at \<open>t1\<close> has its two centres closer than \<open>t2\<close>, every pair
  found at \<open>t1\<close> is found at \<open>t2\<close>, and the number of pairs does not decrease.
\<close>

theorem pair_count_monotone:
  assumes r1: "find_symmetric_face_pairs K shape t1 = Inr pairs1"
    and r2: "find_symmetric_face_pairs K shape t2 = Inr pairs2"
    and le: "t1 \<le> t2"
    and far: "\<forall>(i, j, midpoint, normal) \<in> set pairs1.
        \<not> Length (sub (CenterOfMass K (shape ! j)) (CenterOfMass K (shape ! i))) < t2"
  shows "length pairs1 \<le> length pairs2 \<and> set pairs1 \<subseteq> set pairs2"
proof -
  have keep: "pair_result K t2 (shape ! i) (shape ! j) = Inr (Some (midpoint, normal))"
    if "i < j" "j < length shape"
      "pair_result K t1 (shape ! i) (shape ! j) = Inr (Some (midpoint, normal))"
    for i j midpoint normal
  proof -
    from that have "(i, j, midpoint, normal) \<in> set pairs1"
      by (simp add: find_member_iff [OF r1])
    with far have "\<not> Length (sub (CenterOfMass K (shape ! j)) (CenterOfMass K (shape ! i))) < t2"
      by blast
    with that(3) le show ?thesis by (rule pair_result_mono)
  qed
  have cell: "length (projr (emitted K t1 shape i j)) \<le> length (projr (emitted K t2 shape i j))"
    if "i < j" "j < length shape" for i j
  proof (cases "pair_result K t1 (shape ! i) (shape ! j)")
    case (Inl e)
    with find_projr(2) [OF r1 that] show ?thesis by (simp add: emitted_isl)
  next
    case (Inr v)
    show ?thesis
    proof (cases v)
      case None
      with Inr show ?thesis by (simp add: emitted_def)
    next
      case (Some mn)
      obtain midpoint normal where mn: "mn = (midpoint, normal)" by (cases mn)
      from keep [OF that] Inr Some mn
      have "pair_result K t2 (shape ! i) (shape ! j) = Inr (Some (midpoint, normal))" by simp
      with Inr Some mn show ?thesis by (simp add: emitted_def)
    qed
  qed
  have "length pairs1 \<le> length pairs2"
    unfolding find_projr(1) [OF r1] find_projr(1) [OF r2]
    by (intro concat_length_mono cell) auto
  moreover have "set pairs1 \<subseteq> set pairs2"
  proof
    fix p assume p: "p \<in> set pairs1"
    obtain i j midpoint normal where pe: "p = (i, j, midpoint, normal)" by (cases p)
    from p pe have "i < j" "j < length shape"
      "pair_result K t1 (shape ! i) (shape ! j) = Inr (Some (midpoint, normal))"
      by (simp_all add: find_member_iff [OF r1])
    with keep [OF this] pe show "p \<in> set pairs2"
      by (simp add: find_member_iff [OF r2])
  qed
  ultimately show ?thesis ..
qed

text \<open>
  A call with a tolerance of at least the machine epsilon always returns: the
  normalisation is only reached for a centre distance that is not below the tolerance.
\<close>

lemma find_returns:
  assumes "epsilon \<le> tolerance"
  shows "\<exists>ps. find_symmetric_face_pairs K shape tolerance = Inr ps"
proof -
  have "\<not> isl (find_symmetric_face_pairs K shape tolerance)"
    using assms by (simp only: find_not_isl_iff pair_result_Inl_iff) auto
  then show ?thesis by (cases "find_symmetric_face_pairs K shape tolerance") auto
qed

theorem pair_count_monotone_witness:
  "find_symmetric_face_pairs rect_kernel [square_at 0, square_at 1] (1 / 4)
     = Inr [(0, 1, Vector (1 / 2) (1 / 2) (1 / 2), Vector 0 0 1)]
   \<and> find_symmetric_face_pairs rect_kernel [square_at 0, square_at 1] (1 / 2)
     = Inr [(0, 1, Vector (1 / 2) (1 / 2) (1 / 2), Vector 0 0 1)]
   \<and> (1 / 4 :: real) \<le> 1 / 2
   \<and> length [(0::nat, 1::nat, Vector (1 / 2) (1 / 2) (1 / 2), Vector 0 0 1)]
       \<le> length [(0::nat, 1::nat, Vector (1 / 2) (1 / 2) (1 / 2), Vector 0 0 1)]"
proof -
  let ?p = "(0::nat, 1::nat, Vector (1 / 2) (1 / 2) (1 / 2), Vector 0 0 1)"
  have h1: "find_symmetric_face_pairs rect_kernel [square_at 0, square_at 1] (1 / 4) = Inr [?p]"
    by (rule squares_quarter)
  have h2: "find_symmetric_face_pairs rect_kernel [square_at 0, square_at 1] (1 / 2) = Inr [?p]"
    by (rule squares_half)
  have h3: "(1 / 4 :: real) \<le> 1 / 2" by simp
  have h4: "\<forall>(i, j, midpoint, normal) \<in> set [?p].
      \<not> Length (sub (CenterOfMass rect_kernel ([square_at 0, square_at 1] ! j))
                    (CenterOfMass rect_kernel ([square_at 0, square_at 1] ! i))) < 1 / 2"
    by (simp add: rect_defs square_at_def vec_defs)
  from pair_count_monotone [OF h1 h2 h3 h4] h1 h2 h3 show ?thesis by blast
qed

text \<open>
  Claim C3 as stated fails: two unit squares that face each other at distance 1 are
  found as a pair at the tolerance 1/2, and at the larger tolerance 2 the guard of
  line 47 (centres closer than the tolerance) skips the pair, so the count drops from
  one to zero.
\<close>

theorem pair_count_degenerate_guard_counterexample:
  "(1 / 2 :: real) \<le> 2
   \<and> find_symmetric_face_pairs rect_kernel [square_at 0, square_at 1] (1 / 2)
     = Inr [(0, 1, Vector (1 / 2) (1 / 2) (1 / 2), Vector 0 0 1)]
   \<and> find_symmetric_face_pairs rect_kernel [square_at 0, square_at 1] 2 = Inr []"
  using squares_half squares_two by simp

subsection \<open>The order of enumeration\<close>

lemma Length_sub_commute: "Length (sub a b) = Length (sub b a)"
proof -
  have "(vx a - vx b) * (vx a - vx b) = (vx b - vx a) * (vx b - vx a)"
    "(vy a - vy b) * (vy a - vy b) = (vy b - vy a) * (vy b - vy a)"
    "(vz a - vz b) * (vz a - vz b) = (vz b - vz a) * (vz b - vz a)"
    by (simp_all add: algebra_simps)
  then show ?thesis by (simp add: Length_def sub_def)
qed

lemma pair_result_isl_commute:
  "isl (pair_result K tolerance face_a face_b) = isl (pair_result K tolerance face_b face_a)"
  by (simp only: pair_result_Inl_iff abs_minus_commute [of "Area K face_a"]
      abs_minus_commute [of "perimeter K face_a"]
      Length_sub_commute [of "CenterOfMass K face_b"])

lemma pair_result_error:
  assumes "pair_result K tolerance face_a face_b = Inl e"
  shows "e = NullVectorError"
  using assms
  by (auto simp: pair_result_def mirror_hypothesis_def Let_def normalize_vector_def
      split: sum.splits option.splits if_splits)

lemma find_error:
  assumes "find_symmetric_face_pairs K faces tolerance = Inl e"
  shows "e = NullVectorError"
proof -
  from assms obtain i where
    "gather [i + 1..<length faces] (emitted K tolerance faces i) = Inl e"
    by (auto simp: find_symmetric_face_pairs_gather dest: gather_Inl_error)
  then obtain j where "emitted K tolerance faces i j = Inl e"
    by (auto dest: gather_Inl_error)
  then have "pair_result K tolerance (faces ! i) (faces ! j) = Inl e"
    by (auto simp: emitted_def split: sum.splits option.splits)
  then show ?thesis by (rule pair_result_error)
qed

lemma emits_iff:
  "emits K tolerance face_a face_b \<longleftrightarrow>
     (\<exists>midpoint normal. pair_result K tolerance face_a face_b = Inr (Some (midpoint, normal)))"
  by (auto simp: emits_def split: sum.splits option.splits)

lemma permuted_pairs:
  fixes Q :: "nat \<Rightarrow> nat \<Rightarrow> bool"
  assumes bij: "bij_betw p {..<n} {..<n}"
    and sym: "\<And>i j. i < n \<Longrightarrow> j < n \<Longrightarrow> Q i j = Q j i"
  shows "{{p k, p l} | k l. k < l \<and> l < n \<and> Q (p k) (p l)}
       = {{i, j} | i j. i < j \<and> j < n \<and> Q i j}"
proof (intro set_eqI iffI)
  fix x assume "x \<in> {{p k, p l} | k l. k < l \<and> l < n \<and> Q (p k) (p l)}"
  then obtain k l where x: "x = {p k, p l}" and kl: "k < l" "l < n" and q: "Q (p k) (p l)"
    by blast
  from kl have kn: "k \<in> {..<n}" and ln: "l \<in> {..<n}" by simp_all
  from bij kn ln have pk: "p k < n" and pl: "p l < n"
    by (auto dest: bij_betw_apply)
  from bij have "inj_on p {..<n}" by (rule bij_betw_imp_inj_on)
  with kn ln kl have ne: "p k \<noteq> p l" by (auto dest: inj_onD)
  show "x \<in> {{i, j} | i j. i < j \<and> j < n \<and> Q i j}"
  proof (cases "p k < p l")
    case True
    with x pl q show ?thesis by blast
  next
    case False
    with ne have lt: "p l < p k" by simp
    from q sym [OF pk pl] have "Q (p l) (p k)" by simp
    moreover have "x = {p l, p k}" using x by auto
    ultimately show ?thesis using lt pk by blast
  qed
next
  fix x assume "x \<in> {{i, j} | i j. i < j \<and> j < n \<and> Q i j}"
  then obtain i j where x: "x = {i, j}" and ij: "i < j" "j < n" and q: "Q i j"
    by blast
  from ij have i_n: "i < n" by simp
  from bij have img: "p ` {..<n} = {..<n}" by (rule bij_betw_imp_surj_on)
  from i_n img obtain k where k: "k < n" "p k = i" by (metis imageE lessThan_iff)
  from ij img obtain l where l: "l < n" "p l = j" by (metis imageE lessThan_iff)
  from k l ij have ne: "k \<noteq> l" by auto
  show "x \<in> {{p k, p l} | k l. k < l \<and> l < n \<and> Q (p k) (p l)}"
  proof (cases "k < l")
    case True
    with x k l q show ?thesis by blast
  next
    case False
    with ne have lt: "l < k" by simp
    from q sym [OF i_n ij(2)] have "Q (p l) (p k)" using k l by simp
    moreover have "x = {p l, p k}" using x k l by auto
    ultimately show ?thesis using lt k by blast
  qed
qed

lemma unordered_faces_found:
  assumes "find_symmetric_face_pairs K faces tolerance = Inr ps"
  shows "unordered_faces p ps =
     {{p k, p l} | k l. k < l \<and> l < length faces \<and> emits K tolerance (faces ! k) (faces ! l)}"
proof (intro set_eqI iffI)
  fix x assume "x \<in> unordered_faces p ps"
  then obtain k l midpoint normal where "(k, l, midpoint, normal) \<in> set ps" "x = {p k, p l}"
    by (auto simp: unordered_faces_def)
  with find_member_iff [OF assms, of k l midpoint normal]
  show "x \<in> {{p k, p l} | k l. k < l \<and> l < length faces
                \<and> emits K tolerance (faces ! k) (faces ! l)}"
    by (auto simp: emits_iff)
next
  fix x assume "x \<in> {{p k, p l} | k l. k < l \<and> l < length faces
                \<and> emits K tolerance (faces ! k) (faces ! l)}"
  then obtain k l midpoint normal where kl: "k < l" "l < length faces"
    and r: "pair_result K tolerance (faces ! k) (faces ! l) = Inr (Some (midpoint, normal))"
    and x: "x = {p k, p l}"
    by (auto simp: emits_iff)
  from kl r have "(k, l, midpoint, normal) \<in> set ps"
    by (simp add: find_member_iff [OF assms])
  with x show "x \<in> unordered_faces p ps"
    by (force simp: unordered_faces_def)
qed


lemma permuted_pairs_ex:
  fixes Q :: "nat \<Rightarrow> nat \<Rightarrow> bool"
  assumes bij: "bij_betw p {..<n} {..<n}"
    and sym: "\<And>i j. i < n \<Longrightarrow> j < n \<Longrightarrow> Q i j = Q j i"
  shows "(\<exists>k l. k < l \<and> l < n \<and> Q (p k) (p l)) \<longleftrightarrow> (\<exists>i j. i < j \<and> j < n \<and> Q i j)"
proof -
  have "(\<exists>k l. k < l \<and> l < n \<and> Q (p k) (p l)) \<longleftrightarrow>
        {{p k, p l} | k l. k < l \<and> l < n \<and> Q (p k) (p l)} \<noteq> {}"
    by blast
  also have "\<dots> \<longleftrightarrow> {{i, j} | i j. i < j \<and> j < n \<and> Q i j} \<noteq> {}"
    by (simp only: permuted_pairs [of p n Q, OF bij sym])
  also have "\<dots> \<longleftrightarrow> (\<exists>i j. i < j \<and> j < n \<and> Q i j)"
    by blast
  finally show ?thesis .
qed

lemma ex_pairs_cong:
  assumes "\<And>k l. k < l \<Longrightarrow> l < n \<Longrightarrow> A k l = B k l"
  shows "(\<exists>k l. k < l \<and> l < (n::nat) \<and> A k l) \<longleftrightarrow> (\<exists>k l. k < l \<and> l < n \<and> B k l)"
  using assms by blast

lemma set_pairs_cong:
  assumes "\<And>k l. k < l \<Longrightarrow> l < n \<Longrightarrow> A k l = B k l"
  shows "{f k l | k l. k < l \<and> l < (n::nat) \<and> A k l} = {f k l | k l. k < l \<and> l < n \<and> B k l}"
  using assms by blast

text \<open>
  Claim C9, as amended.  Let \<open>shape'\<close> enumerate the faces of \<open>shape\<close> in another
  order, face \<open>k\<close> of \<open>shape'\<close> being face \<open>p k\<close> of \<open>shape\<close>.  If for all faces \<open>a\<close>,
  \<open>b\<close> of the shape the pair test stores a pair for \<open>(a, b)\<close> exactly when it does for
  \<open>(b, a)\<close>, then the two calls raise together or return together, and when they return
  they find the same set of unordered pairs of faces.
\<close>

theorem matching_order_independent:
  assumes bij: "bij_betw p {..<length shape} {..<length shape}"
    and perm: "shape' = map (\<lambda>k. shape ! p k) [0..<length shape]"
    and sym: "\<forall>a \<in> set shape. \<forall>b \<in> set shape. emits K tolerance a b = emits K tolerance b a"
  shows "map_sum id (unordered_faces p) (find_symmetric_face_pairs K shape' tolerance)
       = map_sum id (unordered_faces id) (find_symmetric_face_pairs K shape tolerance)"
proof -
  let ?n = "length shape"
  let ?I = "\<lambda>i j. isl (pair_result K tolerance (shape ! i) (shape ! j))"
  let ?E = "\<lambda>i j. emits K tolerance (shape ! i) (shape ! j)"
  from perm have len: "length shape' = ?n" by simp
  from perm have nth: "shape' ! k = shape ! p k" if "k < ?n" for k
    using that by simp
  have symI: "?I i j = ?I j i" for i j
    by (rule pair_result_isl_commute)
  have symE: "?E i j = ?E j i" if "i < ?n" "j < ?n" for i j
    using sym that by simp
  have raise: "isl (find_symmetric_face_pairs K shape' tolerance)
             = isl (find_symmetric_face_pairs K shape tolerance)"
  proof -
    have "isl (find_symmetric_face_pairs K shape' tolerance) \<longleftrightarrow>
          (\<exists>k l. k < l \<and> l < ?n \<and> isl (pair_result K tolerance (shape' ! k) (shape' ! l)))"
      using find_not_isl_iff [of K shape' tolerance] by (simp only: len) blast
    also have "\<dots> \<longleftrightarrow> (\<exists>k l. k < l \<and> l < ?n \<and> ?I (p k) (p l))"
      by (rule ex_pairs_cong) (simp add: nth)
    also have "\<dots> \<longleftrightarrow> (\<exists>i j. i < j \<and> j < ?n \<and> ?I i j)"
      by (rule permuted_pairs_ex [OF bij]) (rule symI)
    also have "\<dots> \<longleftrightarrow> isl (find_symmetric_face_pairs K shape tolerance)"
      using find_not_isl_iff [of K shape tolerance] by blast
    finally show ?thesis .
  qed
  show ?thesis
  proof (cases "find_symmetric_face_pairs K shape tolerance")
    case (Inl e)
    with raise obtain e' where e': "find_symmetric_face_pairs K shape' tolerance = Inl e'"
      by (cases "find_symmetric_face_pairs K shape' tolerance") auto
    from Inl have "e = NullVectorError" by (rule find_error)
    moreover from e' have "e' = NullVectorError" by (rule find_error)
    ultimately show ?thesis using Inl e' by simp
  next
    case (Inr ps)
    with raise obtain ps' where ps': "find_symmetric_face_pairs K shape' tolerance = Inr ps'"
      by (cases "find_symmetric_face_pairs K shape' tolerance") auto
    have "unordered_faces p ps' =
        {{p k, p l} | k l. k < l \<and> l < ?n \<and> emits K tolerance (shape' ! k) (shape' ! l)}"
      using unordered_faces_found [OF ps', of p] by (simp only: len)
    also have "\<dots> = {{p k, p l} | k l. k < l \<and> l < ?n \<and> ?E (p k) (p l)}"
      by (rule set_pairs_cong) (simp add: nth)
    also have "\<dots> = {{i, j} | i j. i < j \<and> j < ?n \<and> ?E i j}"
      by (rule permuted_pairs [OF bij]) (rule symE)
    also have "\<dots> = unordered_faces id ps"
      using unordered_faces_found [OF Inr, of id] by simp
    finally show ?thesis using Inr ps' by simp
  qed
qed

lemma sqrt_2601_2500: "sqrt (2601 / 2500) = 51 / 50"
  by (rule real_sqrt_unique) (simp_all add: power2_eq_square)

lemma sqrt_9_2500: "sqrt (9 / 2500) = 3 / 50"
  by (rule real_sqrt_unique) (simp_all add: power2_eq_square)

lemma sqrt_1_400: "sqrt (1 / 400) = 1 / 20"
  by (rule real_sqrt_unique) (simp_all add: power2_eq_square)

lemma flat_distance:
  "distToShape rect_kernel
     \<lparr> rect_origin = Vector ox oy oz, rect_u = Vector 1 0 0, rect_v = Vector 0 1 0,
       rect_width = w, rect_height = h \<rparr> (Vector x y oz) =
     Some (sqrt ((x - ox - min w (max 0 (x - ox))) * (x - ox - min w (max 0 (x - ox)))
               + (y - oy - min h (max 0 (y - oy))) * (y - oy - min h (max 0 (y - oy)))))"
  by (simp add: rect_kernel_def rect_distance_def sub_def add_def multiply_def
      dot_def Length_def Let_def algebra_simps)

lemma plates_diagonals:
  "DiagonalLength rect_kernel (plate_a \<lparr> rect_origin := Vector 0 0 2 \<rparr>) = 1"
  "DiagonalLength rect_kernel plate_a = 1"
  "DiagonalLength rect_kernel (plate_b \<lparr> rect_origin := Vector (3 / 50) (- (1 / 20)) 0 \<rparr>) = 51 / 50"
  "DiagonalLength rect_kernel plate_b = 51 / 50"
  by (simp_all add: rect_kernel_def rect_diagonal_def rect_corners_def extent_def plate_a_def
      plate_b_def add_def multiply_def Length_def sqrt_2601_2500)

lemma plates_hypothesis_ab:
  "mirror_hypothesis rect_kernel (3 / 50) plate_a plate_b =
     Inr (Some (Vector (3 / 10) (2 / 5) 1, Vector 0 0 1,
                mirror_transform (Vector 0 0 1) (Vector (3 / 10) (2 / 5) 1)))"
  by (simp add: mirror_hypothesis_def perimeter_def rect_kernel_def rect_edges_def rect_center_def
      line_edge_def plate_a_def plate_b_def add_def multiply_def sub_def Length_def
      normalize_vector_def epsilon_def Let_def)

lemma plates_hypothesis_ba:
  "mirror_hypothesis rect_kernel (3 / 50) plate_b plate_a =
     Inr (Some (Vector (3 / 10) (2 / 5) 1, Vector 0 0 (- 1),
                mirror_transform (Vector 0 0 (- 1)) (Vector (3 / 10) (2 / 5) 1)))"
  by (simp add: mirror_hypothesis_def perimeter_def rect_kernel_def rect_edges_def rect_center_def
      line_edge_def plate_a_def plate_b_def add_def multiply_def sub_def Length_def
      normalize_vector_def epsilon_def Let_def)

lemma plates_image_a:
  "transformGeometry rect_kernel plate_a (mirror_transform (Vector 0 0 1) (Vector (3 / 10) (2 / 5) 1))
     = plate_a \<lparr> rect_origin := Vector 0 0 2 \<rparr>"
  by (simp add: rect_kernel_def rect_transform_def plate_a_def mirror_transform_def unity_def
      multVec_def dot_def add_def sub_def)

lemma plates_image_b:
  "transformGeometry rect_kernel plate_b (mirror_transform (Vector 0 0 (- 1)) (Vector (3 / 10) (2 / 5) 1))
     = plate_b \<lparr> rect_origin := Vector (3 / 50) (- (1 / 20)) 0 \<rparr>"
  by (simp add: rect_kernel_def rect_transform_def plate_b_def mirror_transform_def unity_def
      multVec_def dot_def add_def sub_def)

lemma plates_points_a:
  "points_to_check rect_kernel (plate_a \<lparr> rect_origin := Vector 0 0 2 \<rparr>) =
     [Vector 0 0 2, Vector (3 / 5) 0 2, Vector (3 / 5) (4 / 5) 2, Vector 0 (4 / 5) 2,
      Vector (3 / 25) 0 2, Vector (6 / 25) 0 2, Vector (9 / 25) 0 2, Vector (12 / 25) 0 2,
      Vector (3 / 5) (4 / 25) 2, Vector (3 / 5) (8 / 25) 2,
      Vector (3 / 5) (12 / 25) 2, Vector (3 / 5) (16 / 25) 2,
      Vector (12 / 25) (4 / 5) 2, Vector (9 / 25) (4 / 5) 2,
      Vector (6 / 25) (4 / 5) 2, Vector (3 / 25) (4 / 5) 2,
      Vector 0 (16 / 25) 2, Vector 0 (12 / 25) 2, Vector 0 (8 / 25) 2, Vector 0 (4 / 25) 2]"
  by (simp add: points_to_check_def edge_samples_def samples_per_edge_def upt_rec plate_a_def
      rect_kernel_def rect_corners_def rect_edges_def line_edge_def add_def multiply_def)

lemma plates_points_b:
  "points_to_check rect_kernel (plate_b \<lparr> rect_origin := Vector (3 / 50) (- (1 / 20)) 0 \<rparr>) =
     [Vector (3 / 50) (- (1 / 20)) 0, Vector (27 / 50) (- (1 / 20)) 0,
      Vector (27 / 50) (17 / 20) 0, Vector (3 / 50) (17 / 20) 0,
      Vector (39 / 250) (- (1 / 20)) 0, Vector (63 / 250) (- (1 / 20)) 0,
      Vector (87 / 250) (- (1 / 20)) 0, Vector (111 / 250) (- (1 / 20)) 0,
      Vector (27 / 50) (13 / 100) 0, Vector (27 / 50) (31 / 100) 0,
      Vector (27 / 50) (49 / 100) 0, Vector (27 / 50) (67 / 100) 0,
      Vector (111 / 250) (17 / 20) 0, Vector (87 / 250) (17 / 20) 0,
      Vector (63 / 250) (17 / 20) 0, Vector (39 / 250) (17 / 20) 0,
      Vector (3 / 50) (67 / 100) 0, Vector (3 / 50) (49 / 100) 0,
      Vector (3 / 50) (31 / 100) 0, Vector (3 / 50) (13 / 100) 0]"
  by (simp add: points_to_check_def edge_samples_def samples_per_edge_def upt_rec plate_b_def
      rect_kernel_def rect_corners_def rect_edges_def line_edge_def add_def multiply_def)

lemma plates_count_a:
  "match_count rect_kernel plate_b (3 / 50)
     (points_to_check rect_kernel (plate_a \<lparr> rect_origin := Vector 0 0 2 \<rparr>)) = 8"
  unfolding plates_points_a plate_b_def
  by (simp add: match_count_def flat_distance sqrt_9_2500)

lemma plates_count_b:
  "match_count rect_kernel plate_a (3 / 50)
     (points_to_check rect_kernel (plate_b \<lparr> rect_origin := Vector (3 / 50) (- (1 / 20)) 0 \<rparr>)) = 20"
  unfolding plates_points_b plate_a_def
  by (simp add: match_count_def flat_distance sqrt_1_400)

lemma plates_check_ab:
  "\<not> check_faces_coincident rect_kernel (plate_a \<lparr> rect_origin := Vector 0 0 2 \<rparr>) plate_b (3 / 50)"
  unfolding check_faces_coincident_def plates_count_a plates_diagonals
  by (simp add: plates_points_a double_0_7_times_20)

lemma plates_check_ba:
  "check_faces_coincident rect_kernel
     (plate_b \<lparr> rect_origin := Vector (3 / 50) (- (1 / 20)) 0 \<rparr>) plate_a (3 / 50)"
  unfolding check_faces_coincident_def plates_count_b plates_diagonals
  by (simp add: plates_points_b double_0_7_times_20)

lemma plates_ab:
  "find_symmetric_face_pairs rect_kernel [plate_a, plate_b] (3 / 50) = Inr []"
  by (simp add: find_symmetric_face_pairs_def try_pair_def upt_rec plates_hypothesis_ab
      plates_image_a plates_check_ab)

lemma plates_ba:
  "find_symmetric_face_pairs rect_kernel [plate_b, plate_a] (3 / 50)
     = Inr [(0, 1, Vector (3 / 10) (2 / 5) 1, Vector 0 0 (- 1))]"
  by (simp add: find_symmetric_face_pairs_def try_pair_def upt_rec plates_hypothesis_ba
      plates_image_b plates_check_ba)

lemma squares_swapped:
  "find_symmetric_face_pairs rect_kernel [square_at 1, square_at 0] (1 / 2)
     = Inr [(0, 1, Vector (1 / 2) (1 / 2) (1 / 2), Vector 0 0 (- 1))]"
  by (simp add: matcher_defs rect_defs square_at_def vec_defs upt_rec)

lemma bij_swap01: "bij_betw swap01 {..<2} {..<2}"
proof -
  have two: "{..<2::nat} = {0, 1}" by auto
  show ?thesis
    unfolding two by (rule bij_betw_byWitness [where f' = swap01]) (auto simp: swap01_def)
qed

text \<open>
  Claim C9 as stated fails, because the coincidence test samples the mirrored first
  face only.  With the tolerance 0.06 the two plates pass the area, perimeter and
  bounding-box filters.  Enumerated as \<open>[plate_a, plate_b]\<close>, twelve of the twenty
  samples of the mirrored \<open>plate_a\<close> are 0.06 away from \<open>plate_b\<close>, which is not below
  the tolerance, so no pair is found; enumerated as \<open>[plate_b, plate_a]\<close>, all twenty
  samples of the mirrored \<open>plate_b\<close> are within 0.05 of \<open>plate_a\<close> and the pair is found.
\<close>

theorem matching_order_dependent_counterexample:
  "find_symmetric_face_pairs rect_kernel [plate_a, plate_b] (3 / 50) = Inr []
   \<and> find_symmetric_face_pairs rect_kernel [plate_b, plate_a] (3 / 50)
       = Inr [(0, 1, Vector (3 / 10) (2 / 5) 1, Vector 0 0 (- 1))]
   \<and> map_sum id (unordered_faces swap01)
        (find_symmetric_face_pairs rect_kernel [plate_b, plate_a] (3 / 50))
     \<noteq> map_sum id (unordered_faces id)
        (find_symmetric_face_pairs rect_kernel [plate_a, plate_b] (3 / 50))"
  by (simp add: plates_ab plates_ba unordered_faces_def)

lemma squares_emits:
  "emits rect_kernel (1 / 2) (square_at 0) (square_at 1)"
  "emits rect_kernel (1 / 2) (square_at 1) (square_at 0)"
proof -
  have "(0, 1, Vector (1 / 2) (1 / 2) (1 / 2), Vector 0 0 1)
      \<in> set [(0::nat, 1::nat, Vector (1 / 2) (1 / 2) (1 / 2), Vector 0 0 1)]" by simp
  then have "pair_result rect_kernel (1 / 2) ([square_at 0, square_at 1] ! 0)
      ([square_at 0, square_at 1] ! 1) = Inr (Some (Vector (1 / 2) (1 / 2) (1 / 2), Vector 0 0 1))"
    by (simp only: find_member_iff [OF squares_half])
  then show "emits rect_kernel (1 / 2) (square_at 0) (square_at 1)"
    by (simp add: emits_def)
  have "(0, 1, Vector (1 / 2) (1 / 2) (1 / 2), Vector 0 0 (- 1))
      \<in> set [(0::nat, 1::nat, Vector (1 / 2) (1 / 2) (1 / 2), Vector 0 0 (- 1))]" by simp
  then have "pair_result rect_kernel (1 / 2) ([square_at 1, square_at 0] ! 0)
      ([square_at 1, square_at 0] ! 1) = Inr (Some (Vector (1 / 2) (1 / 2) (1 / 2), Vector 0 0 (- 1)))"
    by (simp only: find_member_iff [OF squares_swapped])
  then show "emits rect_kernel (1 / 2) (square_at 1) (square_at 0)"
    by (simp add: emits_def)
qed

theorem matching_order_independent_witness:
  "map_sum id (unordered_faces swap01)
     (find_symmetric_face_pairs rect_kernel [square_at 1, square_at 0] (1 / 2)) = Inr {{0, 1}}
   \<and> map_sum id (unordered_faces id)
     (find_symmetric_face_pairs rect_kernel [square_at 0, square_at 1] (1 / 2)) = Inr {{0, 1}}"
proof -
  let ?shape = "[square_at 0, square_at 1]"
  have "length ?shape = 2" by simp
  then have h1: "bij_betw swap01 {..<length ?shape} {..<length ?shape}"
    by (simp only: bij_swap01)
  have h2: "[square_at 1, square_at 0] = map (\<lambda>k. ?shape ! swap01 k) [0..<length ?shape]"
    by (simp add: swap01_def upt_rec)
  have h3: "\<forall>a \<in> set ?shape. \<forall>b \<in> set ?shape.
      emits rect_kernel (1 / 2) a b = emits rect_kernel (1 / 2) b a"
    by (simp add: squares_emits)
  have r: "map_sum id (unordered_faces id)
     (find_symmetric_face_pairs rect_kernel ?shape (1 / 2)) = Inr {{0, 1}}"
    by (simp add: squares_half unordered_faces_def)
  from matching_order_independent [OF h1 h2 h3] r show ?thesis by simp
qed

subsection \<open>Opposite normals in one group\<close>

lemma wall_hypothesis_small:
  "mirror_hypothesis rect_kernel (1 / 100) (wall (- 2) 1) (wall 2 1) =
     Inr (Some (Vector 0 (1 / 2) (1 / 2), Vector 1 0 0,
                mirror_transform (Vector 1 0 0) (Vector 0 (1 / 2) (1 / 2))))"
  by (simp add: mirror_hypothesis_def perimeter_def rect_kernel_def rect_edges_def rect_center_def
      line_edge_def wall_def add_def multiply_def sub_def Length_def
      normalize_vector_def epsilon_def Let_def)

lemma wall_hypothesis_large:
  "mirror_hypothesis rect_kernel (1 / 100) (wall 1 2) (wall (- 1) 2) =
     Inr (Some (Vector 0 1 1, Vector (- 1) 0 0,
                mirror_transform (Vector (- 1) 0 0) (Vector 0 1 1)))"
  by (simp add: mirror_hypothesis_def perimeter_def rect_kernel_def rect_edges_def rect_center_def
      line_edge_def wall_def add_def multiply_def sub_def Length_def
      normalize_vector_def epsilon_def Let_def)

lemma wall_hypothesis_mixed:
  "mirror_hypothesis rect_kernel (1 / 100) (wall x 1) (wall y 2) = Inr None"
  by (simp add: mirror_hypothesis_def rect_kernel_def wall_def)

lemma wall_image_small:
  "transformGeometry rect_kernel (wall (- 2) 1) (mirror_transform (Vector 1 0 0) (Vector 0 (1 / 2) (1 / 2)))
     = wall 2 1"
  by (simp add: rect_kernel_def rect_transform_def wall_def mirror_transform_def unity_def
      multVec_def dot_def add_def sub_def)

lemma wall_image_large:
  "transformGeometry rect_kernel (wall 1 2) (mirror_transform (Vector (- 1) 0 0) (Vector 0 1 1))
     = wall (- 1) 2"
  by (simp add: rect_kernel_def rect_transform_def wall_def mirror_transform_def unity_def
      multVec_def dot_def add_def sub_def)

lemma wall_distance:
  "distToShape rect_kernel (wall x0 side) (Vector x0 y z) =
     Some (sqrt ((y - min side (max 0 y)) * (y - min side (max 0 y))
               + (z - min side (max 0 z)) * (z - min side (max 0 z))))"
  by (simp add: rect_kernel_def rect_distance_def wall_def sub_def add_def multiply_def
      dot_def Length_def Let_def algebra_simps)

lemma wall_points:
  "points_to_check rect_kernel (wall x0 side) =
     [Vector x0 0 0, Vector x0 side 0, Vector x0 side side, Vector x0 0 side,
      Vector x0 (side / 5) 0, Vector x0 (2 * side / 5) 0,
      Vector x0 (3 * side / 5) 0, Vector x0 (4 * side / 5) 0,
      Vector x0 side (side / 5), Vector x0 side (2 * side / 5),
      Vector x0 side (3 * side / 5), Vector x0 side (4 * side / 5),
      Vector x0 (side - side / 5) side, Vector x0 (side - 2 * side / 5) side,
      Vector x0 (side - 3 * side / 5) side, Vector x0 (side - 4 * side / 5) side,
      Vector x0 0 (side - side / 5), Vector x0 0 (side - 2 * side / 5),
      Vector x0 0 (side - 3 * side / 5), Vector x0 0 (side - 4 * side / 5)]"
  by (simp add: points_to_check_def edge_samples_def samples_per_edge_def upt_rec wall_def
      rect_kernel_def rect_corners_def rect_edges_def line_edge_def add_def multiply_def)

lemma wall_check_small: "check_faces_coincident rect_kernel (wall 2 1) (wall 2 1) (1 / 100)"
  unfolding check_faces_coincident_def wall_points
  by (simp add: match_count_def wall_distance double_0_7_times_20)

lemma wall_check_large: "check_faces_coincident rect_kernel (wall (- 1) 2) (wall (- 1) 2) (1 / 100)"
  unfolding check_faces_coincident_def wall_points
  by (simp add: match_count_def wall_distance double_0_7_times_20)

lemma stepped_part_pairs:
  "find_symmetric_face_pairs rect_kernel stepped_part (1 / 100) =
     Inr [(0, 1, Vector 0 (1 / 2) (1 / 2), Vector 1 0 0), (2, 3, Vector 0 1 1, Vector (- 1) 0 0)]"
  by (simp add: find_symmetric_face_pairs_def try_pair_def upt_rec stepped_part_def
      wall_hypothesis_small wall_hypothesis_large wall_hypothesis_mixed
      wall_image_small wall_image_large wall_check_small wall_check_large)

text \<open>
  On the stepped part the matcher finds the pair of the small faces with the normal
  \<open>(1, 0, 0)\<close> and the pair of the large faces with the normal \<open>(-1, 0, 0)\<close>.  The
  similarity test takes the absolute value of the dot product, so both pairs join one
  group; the sum of the normals is the null vector, which cannot be normalised, and
  both \<^verbatim>\<open>find_significant_mirror_plane\<close> and \<^verbatim>\<open>find_all_mirror_planes\<close> end with
  the exception and return no plane.
\<close>

lemma stepped_part_raises:
  "find_symmetric_face_pairs rect_kernel stepped_part (1 / 100) =
     Inr [(0, 1, Vector 0 (1 / 2) (1 / 2), Vector 1 0 0), (2, 3, Vector 0 1 1, Vector (- 1) 0 0)]
   \<and> sum_normals [(0, 1, Vector 0 (1 / 2) (1 / 2), Vector 1 0 0),
                    (2, 3, Vector 0 1 1, Vector (- 1) 0 0)] = Vector 0 0 0
   \<and> find_significant_mirror_plane
        [(0, 1, Vector 0 (1 / 2) (1 / 2), Vector 1 0 0), (2, 3, Vector 0 1 1, Vector (- 1) 0 0)] 4
      = Inl NullVectorError
   \<and> find_all_mirror_planes
        [(0, 1, Vector 0 (1 / 2) (1 / 2), Vector 1 0 0), (2, 3, Vector 0 1 1, Vector (- 1) 0 0)] 4
      = Inl NullVectorError"
  by (simp add: stepped_part_pairs find_significant_mirror_plane_def plane_groups_significant_def
      add_pair_significant_def find_all_mirror_planes_def plane_groups_all_def
      add_pair_all_def dot_def average_plane_def sum_normals_def add_def
      normalize_vector_def Length_def epsilon_def)

text \<open>
  Claim C7.  The classification is not reached for every non-empty list: for the two
  pairs of the stepped part the largest group has the coverage 4 / 4 = 1, in the
  full-symmetry tier, but \<^verbatim>\<open>avg_normal.normalize()\<close> raises on the null sum before the
  coverage is computed, so neither the averaged plane nor a status is returned.
\<close>

theorem significance_full_tier_raises:
  "coverage_of (max_by_len (plane_groups_significant
      [(0, 1, Vector 0 (1 / 2) (1 / 2), Vector 1 0 0), (2, 3, Vector 0 1 1, Vector (- 1) 0 0)])) 4
     = Inr 1
   \<and> find_significant_mirror_plane
        [(0, 1, Vector 0 (1 / 2) (1 / 2), Vector 1 0 0), (2, 3, Vector 0 1 1, Vector (- 1) 0 0)] 4
      = Inl NullVectorError"
  by (simp add: find_significant_mirror_plane_def plane_groups_significant_def
      add_pair_significant_def dot_def average_plane_def sum_normals_def add_def
      normalize_vector_def Length_def epsilon_def coverage_of_def unique_faces_def)

end
